theory Spec2Isabelle
  imports Complex_Main
begin

text \<open>
  The balloon subsystem of the portfolio page: the factory \<^verbatim>\<open>randomBalloon\<close>, the hook
  \<^verbatim>\<open>useAudioPop\<close>, the component \<^verbatim>\<open>BalloonsLayer\<close> and the part of \<^verbatim>\<open>Portfolio\<close> that
  mounts it, as they stand in \<^verbatim>\<open>src/App.tsx\<close>. The repository holds two older variants
  of the page; where they differ from \<^verbatim>\<open>src/App.tsx\<close> in what is modelled, the variant
  has a definition of its own, with the suffix \<open>_part_000\<close> or \<open>_part_001\<close>.
\<close>

section \<open>Balloon Factory\<close>

text \<open>
  The type \<^verbatim>\<open>Balloon\<close> of \<^verbatim>\<open>src/App.tsx\<close>. The fields \<^verbatim>\<open>id\<close>, \<^verbatim>\<open>x\<close> and
  \<^verbatim>\<open>size\<close> carry the suffix \<open>_b\<close>, since \<open>id\<close> and \<open>size\<close> are constants of HOL and
  \<open>x\<close> is wanted as a variable. A JavaScript number that only ever holds a counter
  started at 1 and incremented is a \<open>nat\<close>; the other numbers are reals (the rounding of
  IEEE doubles is outside this model), and the hue, which is a \<^verbatim>\<open>Math.floor\<close>, an \<open>int\<close>.
\<close>

record Balloon =
  id_b :: nat
  x_b :: real
  size_b :: real
  hue :: int
  floatSec :: real
  sway :: real

text \<open>
  \<^verbatim>\<open>randomBalloon\<close> calls \<^verbatim>\<open>Math.random()\<close> five times. The results of these calls are
  the input \<open>draws\<close>, in the order of evaluation: the size first, then the fields of
  the object literal from top to bottom. \<^verbatim>\<open>Math.random()\<close> returns a number that is at
  least 0 and less than 1: \<open>unit_draws\<close>.
\<close>

record draws =
  r_size :: real
  r_x :: real
  r_hue :: real
  r_floatSec :: real
  r_sway :: real

definition unit_draws :: "draws \<Rightarrow> bool" where
  "unit_draws r \<longleftrightarrow>
     0 \<le> r_size r \<and> r_size r < 1 \<and> 0 \<le> r_x r \<and> r_x r < 1 \<and> 0 \<le> r_hue r \<and> r_hue r < 1 \<and>
     0 \<le> r_floatSec r \<and> r_floatSec r < 1 \<and> 0 \<le> r_sway r \<and> r_sway r < 1"

text \<open>\<^verbatim>\<open>randomBalloon\<close> of \<^verbatim>\<open>src/App.tsx\<close> (the first unnamed variant has the same body).\<close>

definition randomBalloon :: "nat \<Rightarrow> draws \<Rightarrow> Balloon" where
  "randomBalloon idSeed r =
     (let size = 38 + r_size r * 34 in
      \<lparr> id_b = idSeed,
        x_b = r_x r * 96 + 2,
        size_b = size,
        hue = \<lfloor>r_hue r * 360\<rfloor>,
        floatSec = 10 + r_floatSec r * 10,
        sway = 20 + r_sway r * 60 \<rparr>)"

text \<open>
  \<^verbatim>\<open>randomBalloon\<close> of the second unnamed variant of the page, which draws the size as
  \<^verbatim>\<open>36 + Math.random() * 36\<close>.
\<close>

definition randomBalloon_part_001 :: "nat \<Rightarrow> draws \<Rightarrow> Balloon" where
  "randomBalloon_part_001 idSeed r =
     (let size = 36 + r_size r * 36 in
      \<lparr> id_b = idSeed,
        x_b = r_x r * 96 + 2,
        size_b = size,
        hue = \<lfloor>r_hue r * 360\<rfloor>,
        floatSec = 10 + r_floatSec r * 10,
        sway = 20 + r_sway r * 60 \<rparr>)"

text \<open>The documented ranges of section 4.1 of the specification, as a predicate on a balloon.\<close>

definition in_documented_ranges :: "Balloon \<Rightarrow> bool" where
  "in_documented_ranges b \<longleftrightarrow>
     36 \<le> size_b b \<and> size_b b \<le> 72 \<and>
     2 \<le> x_b b \<and> x_b b \<le> 98 \<and>
     0 \<le> hue b \<and> hue b \<le> 359 \<and>
     10 \<le> floatSec b \<and> floatSec b \<le> 20 \<and>
     20 \<le> sway b \<and> sway b \<le> 80"

definition half_draws :: draws where
  "half_draws = \<lparr> r_size = 1/2, r_x = 1/2, r_hue = 1/2, r_floatSec = 1/2, r_sway = 1/2 \<rparr>"

section \<open>Tone Synthesizer\<close>

text \<open>
  \<^verbatim>\<open>useAudioPop\<close> talks to the Web Audio interface of the browser. Each call of that
  interface is an \<open>audio_cmd\<close>; the nodes are named after the variables that hold them.
  \<open>FillNoise n\<close> stands for \<^verbatim>\<open>getChannelData(0)\<close> and the loop that writes the \<open>n\<close>
  samples of the noise buffer.
\<close>

datatype node = Gain | Osc | Noise | NoiseGain | Destination

datatype audio_param = Gain_gain | Osc_frequency | NoiseGain_gain

datatype audio_cmd =
    NewAudioContext
  | Resume
  | CreateGain node
  | CreateOscillator
  | SetType string
  | SetValueAtTime audio_param real real
  | ExponentialRampToValueAtTime audio_param real real
  | CreateBuffer nat nat real
  | FillNoise nat
  | CreateBufferSource
  | SetBuffer
  | Connect node node
  | Start node real
  | Stop node real

text \<open>An exception thrown by a call of the interface (or the rejection of \<^verbatim>\<open>resume()\<close>).\<close>

datatype audio_error = Thrown audio_cmd

text \<open>
  What the browser does is an input: which calls throw, whether the context reports the
  state \<^verbatim>\<open>"suspended"\<close>, and the values of \<^verbatim>\<open>ctx.currentTime\<close> and \<^verbatim>\<open>ctx.sampleRate\<close>.
\<close>

record audio_host =
  throws :: "audio_cmd \<Rightarrow> bool"
  ctx_suspended :: bool
  currentTime :: real
  sampleRate :: real

text \<open>
  A sequence of calls runs until the first one that throws. The result is the exception or
  normal completion, with the calls that completed.
\<close>

fun run_cmds :: "(audio_cmd \<Rightarrow> bool) \<Rightarrow> audio_cmd list \<Rightarrow> (audio_error + unit) \<times> audio_cmd list" where
  "run_cmds thr [] = (Inr (), [])"
| "run_cmds thr (c # cs) =
     (if thr c then (Inl (Thrown c), [])
      else (case run_cmds thr cs of (r, done) \<Rightarrow> (r, c # done)))"

text \<open>
  The construction of the signal graph, from \<^verbatim>\<open>ctx.createGain()\<close> to \<^verbatim>\<open>noise.stop\<close>. The
  variants of the page differ in one value only, the one first set on the output gain,
  which is the parameter \<open>g0\<close> here.
\<close>

definition pop_graph :: "real \<Rightarrow> real \<Rightarrow> real \<Rightarrow> real \<Rightarrow> audio_cmd list" where
  "pop_graph g0 vol now rate =
     (let bufferSize = 2048 in
      [CreateGain Gain,
       SetValueAtTime Gain_gain g0 now,
       ExponentialRampToValueAtTime Gain_gain 0.0001 (now + 0.12),
       CreateOscillator,
       SetType ''triangle'',
       SetValueAtTime Osc_frequency 240 now,
       ExponentialRampToValueAtTime Osc_frequency 60 (now + 0.12),
       CreateBuffer 1 bufferSize rate,
       FillNoise bufferSize,
       CreateBufferSource,
       SetBuffer,
       CreateGain NoiseGain,
       SetValueAtTime NoiseGain_gain (vol * 0.4) now,
       ExponentialRampToValueAtTime NoiseGain_gain 0.0001 (now + 0.05),
       Connect Osc Gain,
       Connect Noise NoiseGain,
       Connect NoiseGain Gain,
       Connect Gain Destination,
       Start Osc now,
       Stop Osc (now + 0.13),
       Start Noise now,
       Stop Noise (now + 0.06)])"

section \<open>Balloon Lifecycle Manager and Render/Animate Layer\<close>

text \<open>
  The state of one mounted \<^verbatim>\<open>BalloonsLayer\<close>: the \<^verbatim>\<open>useState\<close> list \<open>balloons\<close>, the
  counter \<open>idRef\<close>, the interval timer \<open>spawn\<close> (its delay in milliseconds while it is
  set), and the two refs of \<^verbatim>\<open>useAudioPop\<close>: \<open>ctxRef\<close> (whether the audio context
  exists) and \<open>volRef\<close>. Three fields record what the component does to the outside:
  \<open>issued\<close> are the Web Audio calls completed so far, \<open>popCalls\<close> counts the
  invocations of \<^verbatim>\<open>pop\<close>, \<open>console\<close> are the lines of \<^verbatim>\<open>console.log\<close>. \<open>awaiting\<close>
  holds the click handlers that are suspended at \<^verbatim>\<open>await pop()\<close>, each with the id it
  captured and the promise it awaits: \<open>Pending\<close> while \<^verbatim>\<open>pop\<close> is itself suspended at
  \<^verbatim>\<open>await ctx.resume()\<close>, \<open>Settled\<close> with the outcome afterwards. Effects and state
  updaters run once each, as React runs them in a production build.

  The first line that \<^verbatim>\<open>onClick\<close> logs also prints \<^verbatim>\<open>balloons.length\<close> of the render
  that created the handler; that number is no part of this state and is left out of
  \<open>BalloonClicked\<close>, which keeps the id.
\<close>

datatype promise = Pending | Settled "audio_error + unit"

datatype log_entry =
    BalloonClicked nat
  | PopSoundPlayed
  | AudioPopFailed audio_error
  | RemovingBalloon nat nat

record BalloonsLayer =
  balloons :: "Balloon list"
  idRef :: nat
  spawn :: "nat option"
  ctxRef :: bool
  volRef :: real
  issued :: "audio_cmd list"
  popCalls :: nat
  console :: "log_entry list"
  awaiting :: "(nat \<times> promise) list"

text \<open>
  The function returned by \<^verbatim>\<open>useAudioPop\<close> in \<^verbatim>\<open>src/App.tsx\<close>. It is \<^verbatim>\<open>async\<close>, and
  its whole body stands in \<^verbatim>\<open>try { ... } catch { /* noop */ }\<close>.

  \<open>pop\<close> is its run from the invocation to its first suspension or its end. It creates
  the context if there is none. If the context then reports \<^verbatim>\<open>"suspended"\<close>, it calls
  \<^verbatim>\<open>resume()\<close> and is suspended at the \<^verbatim>\<open>await\<close>: its promise is \<open>Pending\<close>, and nothing of
  the graph has been built. Otherwise it reads \<^verbatim>\<open>ctx.currentTime\<close> and \<^verbatim>\<open>volRef.current\<close>
  and builds the graph (\<open>graph_cmds\<close>). A call that throws ends in the \<^verbatim>\<open>catch\<close>, and the
  promise is fulfilled all the same.

  \<open>pop_resumed\<close> is the rest of the body, run when the promise of \<^verbatim>\<open>resume()\<close> has
  settled; the host is now the browser at that moment, and \<open>throws h Resume\<close> says that
  the promise was rejected. Only now are \<^verbatim>\<open>ctx.currentTime\<close> and \<^verbatim>\<open>volRef.current\<close> read
  and the graph built. A promise of \<^verbatim>\<open>resume()\<close> that never settles is a run of the page
  in which \<open>pop_resumed\<close> never takes place.
\<close>

definition graph_cmds :: "audio_host \<Rightarrow> BalloonsLayer \<Rightarrow> audio_cmd list" where
  "graph_cmds h l =
     pop_graph (max 0.0001 (volRef l)) (volRef l) (currentTime h) (sampleRate h)"

definition pop_cmds :: "audio_host \<Rightarrow> BalloonsLayer \<Rightarrow> audio_cmd list" where
  "pop_cmds h l =
     (if ctxRef l then [] else [NewAudioContext]) @
     (if ctx_suspended h then [Resume] else graph_cmds h l)"

definition pop :: "audio_host \<Rightarrow> BalloonsLayer \<Rightarrow> promise \<times> BalloonsLayer" where
  "pop h l =
     (case run_cmds (throws h) (pop_cmds h l) of
        (r, done) \<Rightarrow>
          (let l' = l\<lparr> ctxRef := ctxRef l \<or> NewAudioContext \<in> set done,
                       issued := issued l @ done,
                       popCalls := popCalls l + 1 \<rparr>
           in case r of
                Inl e \<Rightarrow> (Settled (Inr ()), l')
              | Inr u \<Rightarrow> (if ctx_suspended h then (Pending, l') else (Settled (Inr ()), l'))))"

definition pop_resumed :: "audio_host \<Rightarrow> BalloonsLayer \<Rightarrow> (audio_error + unit) \<times> BalloonsLayer" where
  "pop_resumed h l =
     (case (if throws h Resume then (Inl (Thrown Resume), [])
            else run_cmds (throws h) (graph_cmds h l)) of
        (r, done) \<Rightarrow>
          (let l' = l\<lparr> issued := issued l @ done \<rparr>
           in case r of
                Inl e \<Rightarrow> (Inr (), l')
              | Inr u \<Rightarrow> (Inr (), l')))"

text \<open>
  The function returned by \<^verbatim>\<open>useAudioPop\<close> in the two unnamed variants of the page: not
  \<^verbatim>\<open>async\<close>, no \<^verbatim>\<open>resume()\<close>, and the output gain starts at \<^verbatim>\<open>volRef.current\<close> itself.
\<close>

definition pop_cmds_part_000 :: "audio_host \<Rightarrow> BalloonsLayer \<Rightarrow> audio_cmd list" where
  "pop_cmds_part_000 h l =
     (if ctxRef l then [] else [NewAudioContext]) @
     pop_graph (volRef l) (volRef l) (currentTime h) (sampleRate h)"

definition pop_part_000 :: "audio_host \<Rightarrow> BalloonsLayer \<Rightarrow> (audio_error + unit) \<times> BalloonsLayer" where
  "pop_part_000 h l =
     (case run_cmds (throws h) (pop_cmds_part_000 h l) of
        (r, done) \<Rightarrow>
          (let l' = l\<lparr> ctxRef := ctxRef l \<or> NewAudioContext \<in> set done,
                       issued := issued l @ done,
                       popCalls := popCalls l + 1 \<rparr>
           in case r of
                Inl e \<Rightarrow> (Inr (), l')
              | Inr u \<Rightarrow> (Inr (), l')))"

text \<open>
  The updater \<^verbatim>\<open>(b) => b.filter((x) => x.id !== bl.id)\<close>, which both
  \<^verbatim>\<open>onAnimationComplete\<close> and \<^verbatim>\<open>onClick\<close> pass to \<^verbatim>\<open>setBalloons\<close>: the remove
  operation of the Lifecycle Manager.
\<close>

definition remove_id :: "nat \<Rightarrow> Balloon list \<Rightarrow> Balloon list" where
  "remove_id i b = filter (\<lambda>x. id_b x \<noteq> i) b"

definition onAnimationComplete :: "nat \<Rightarrow> BalloonsLayer \<Rightarrow> BalloonsLayer" where
  "onAnimationComplete i l = l\<lparr> balloons := remove_id i (balloons l) \<rparr>"

text \<open>
  \<^verbatim>\<open>onClick\<close> of \<^verbatim>\<open>src/App.tsx\<close> is an \<^verbatim>\<open>async\<close> function. \<open>onClick\<close> is its run up to
  \<^verbatim>\<open>await pop()\<close>, where it is suspended with the promise that \<^verbatim>\<open>pop()\<close> returned.
  \<open>onResumeSettled\<close> is what happens when the promise of \<^verbatim>\<open>resume()\<close> settles for a
  \<^verbatim>\<open>pop\<close> that waits for it: the rest of \<^verbatim>\<open>pop\<close> runs and the promise of \<^verbatim>\<open>pop()\<close>
  settles (\<open>settle\<close>, on the oldest such handler of balloon \<open>i\<close>). \<open>onClick_resumed\<close> is
  the continuation of the handler, which can run only when the promise it awaits has
  settled: the \<^verbatim>\<open>try\<close>/\<^verbatim>\<open>catch\<close> around the \<^verbatim>\<open>await\<close>, then \<^verbatim>\<open>setBalloons\<close>.
  \<^verbatim>\<open>e.stopPropagation()\<close> concerns the elements under the balloon and has no effect on
  this state.
\<close>

definition onClick :: "audio_host \<Rightarrow> nat \<Rightarrow> BalloonsLayer \<Rightarrow> BalloonsLayer" where
  "onClick h i l =
     (let l1 = l\<lparr> console := console l @ [BalloonClicked i] \<rparr>
      in case pop h l1 of
           (pr, l2) \<Rightarrow> l2\<lparr> awaiting := awaiting l2 @ [(i, pr)] \<rparr>)"

fun settle :: "nat \<Rightarrow> audio_error + unit \<Rightarrow> (nat \<times> promise) list \<Rightarrow> (nat \<times> promise) list" where
  "settle i r [] = []"
| "settle i r (a # as) = (if a = (i, Pending) then (i, Settled r) # as else a # settle i r as)"

definition onResumeSettled :: "audio_host \<Rightarrow> nat \<Rightarrow> BalloonsLayer \<Rightarrow> BalloonsLayer" where
  "onResumeSettled h i l =
     (if (i, Pending) \<in> set (awaiting l)
      then (case pop_resumed h l of
              (r, l1) \<Rightarrow> l1\<lparr> awaiting := settle i r (awaiting l1) \<rparr>)
      else l)"

definition onClick_resumed :: "nat \<Rightarrow> BalloonsLayer \<Rightarrow> BalloonsLayer" where
  "onClick_resumed i l =
     (case find (\<lambda>a. fst a = i \<and> snd a \<noteq> Pending) (awaiting l) of
        None \<Rightarrow> l
      | Some a \<Rightarrow>
          (let l1 = l\<lparr> awaiting := remove1 a (awaiting l) \<rparr>;
               l2 = (case snd a of
                       Settled (Inr u) \<Rightarrow> l1\<lparr> console := console l1 @ [PopSoundPlayed] \<rparr>
                     | Settled (Inl e) \<Rightarrow> l1\<lparr> console := console l1 @ [AudioPopFailed e] \<rparr>
                     | Pending \<Rightarrow> l1);
               newBalloons = remove_id i (balloons l2)
           in l2\<lparr> console := console l2 @ [RemovingBalloon i (length newBalloons)],
                  balloons := newBalloons \<rparr>))"

text \<open>Whether a handler of balloon \<open>i\<close> is suspended at a promise that has settled.\<close>

definition has_settled :: "nat \<Rightarrow> BalloonsLayer \<Rightarrow> bool" where
  "has_settled i l \<longleftrightarrow> find (\<lambda>a. fst a = i \<and> snd a \<noteq> Pending) (awaiting l) \<noteq> None"

text \<open>
  \<^verbatim>\<open>onClick\<close> of the two unnamed variants: \<^verbatim>\<open>pop(); setBalloons(...)\<close> in one run.
\<close>

definition onClick_part_000 :: "audio_host \<Rightarrow> nat \<Rightarrow> BalloonsLayer \<Rightarrow> BalloonsLayer" where
  "onClick_part_000 h i l =
     (case pop_part_000 h l of
        (r, l1) \<Rightarrow> l1\<lparr> balloons := remove_id i (balloons l1) \<rparr>)"

text \<open>
  The effect of \<^verbatim>\<open>BalloonsLayer\<close> with the dependency \<^verbatim>\<open>[enabled]\<close>. \<open>burst\<close> is
  \<^verbatim>\<open>Array.from({ length: 12 }, () => randomBalloon(idRef.current++))\<close>, with the draws of
  the \<open>k\<close>-th balloon given by \<open>ds k\<close>. \<open>cleanup\<close> is the function the effect returns.
  \<open>spawn_tick\<close> is the callback of the interval.
\<close>

definition burst :: "nat \<Rightarrow> (nat \<Rightarrow> draws) \<Rightarrow> Balloon list" where
  "burst n ds = map (\<lambda>k. randomBalloon (n + k) (ds k)) [0..<12]"

definition effect :: "bool \<Rightarrow> (nat \<Rightarrow> draws) \<Rightarrow> BalloonsLayer \<Rightarrow> BalloonsLayer" where
  "effect enabled ds l =
     (if \<not> enabled then l
      else l\<lparr> balloons := balloons l @ burst (idRef l) ds,
              idRef := idRef l + 12,
              spawn := Some 1600 \<rparr>)"

definition cleanup :: "BalloonsLayer \<Rightarrow> BalloonsLayer" where
  "cleanup l = l\<lparr> spawn := None \<rparr>"

definition spawn_tick :: "draws \<Rightarrow> BalloonsLayer \<Rightarrow> BalloonsLayer" where
  "spawn_tick d l =
     (if length (balloons l) > 35 then l
      else l\<lparr> balloons := balloons l @ [randomBalloon (idRef l) d],
              idRef := idRef l + 1 \<rparr>)"

text \<open>
  Mounting the component: \<^verbatim>\<open>useState([])\<close>, \<^verbatim>\<open>useRef(1)\<close>, \<^verbatim>\<open>useRef(null)\<close> and
  \<^verbatim>\<open>useRef(volume)\<close> with \<^verbatim>\<open>volume = muted ? 0 : 0.06\<close>, then the effect.
\<close>

definition BalloonsLayer_init :: "bool \<Rightarrow> BalloonsLayer" where
  "BalloonsLayer_init muted =
     \<lparr> balloons = [], idRef = 1, spawn = None, ctxRef = False,
       volRef = (if muted then 0 else 0.06), issued = [], popCalls = 0,
       console = [], awaiting = [] \<rparr>"

definition mount :: "bool \<Rightarrow> bool \<Rightarrow> (nat \<Rightarrow> draws) \<Rightarrow> BalloonsLayer" where
  "mount enabled muted ds = effect enabled ds (BalloonsLayer_init muted)"

text \<open>
  A change of the prop \<^verbatim>\<open>enabled\<close> of a mounted layer: the cleanup of the previous run of
  the effect, then the effect again. The page never does this (see \<open>step\<close> below).
\<close>

definition set_enabled :: "bool \<Rightarrow> (nat \<Rightarrow> draws) \<Rightarrow> BalloonsLayer \<Rightarrow> BalloonsLayer" where
  "set_enabled enabled ds l = effect enabled ds (cleanup l)"

section \<open>Page Shell\<close>

text \<open>
  The part of \<^verbatim>\<open>Portfolio\<close> that concerns the balloons: the two \<^verbatim>\<open>useState\<close> flags and
  the element \<^verbatim>\<open>{balloonsOn && <BalloonsLayer enabled={balloonsOn} muted={muted} />}\<close>.
  The layer is mounted exactly while \<open>balloonsOn\<close> holds, so \<open>layer\<close> is \<open>None\<close> while the
  balloons are off: React discards the state of a component that is no longer rendered, and
  a later mount starts from the initial state.
\<close>

record Portfolio =
  balloonsOn :: bool
  muted :: bool
  layer :: "BalloonsLayer option"

definition Portfolio_init :: "(nat \<Rightarrow> draws) \<Rightarrow> Portfolio" where
  "Portfolio_init ds =
     \<lparr> balloonsOn = True, muted = False, layer = Some (mount True False ds) \<rparr>"

text \<open>
  The events of the page: the two buttons, a firing of the interval, the end of the
  ascent of balloon \<open>i\<close>, a click on balloon \<open>i\<close> (with what the browser does to the audio
  calls), the settling of the promise of \<^verbatim>\<open>resume()\<close> for a click on balloon \<open>i\<close> (with
  what the browser does then), and the continuation of a click handler whose awaited
  promise has settled. An event of the last two kinds changes nothing when no handler of
  balloon \<open>i\<close> is in that position.
\<close>

datatype event =
    ToggleBalloons "nat \<Rightarrow> draws"
  | ToggleMute
  | SpawnTick draws
  | AnimationComplete nat
  | Click audio_host nat
  | ResumeSettled audio_host nat
  | PopSettled nat

fun step :: "event \<Rightarrow> Portfolio \<Rightarrow> Portfolio" where
  "step (ToggleBalloons ds) p =
     (if balloonsOn p then p\<lparr> balloonsOn := False, layer := None \<rparr>
      else p\<lparr> balloonsOn := True, layer := Some (mount True (muted p) ds) \<rparr>)"
| "step ToggleMute p =
     p\<lparr> muted := \<not> muted p,
        layer := map_option (\<lambda>l. l\<lparr> volRef := (if \<not> muted p then 0 else 0.06) \<rparr>) (layer p) \<rparr>"
| "step (SpawnTick d) p =
     p\<lparr> layer := map_option (\<lambda>l. if spawn l = None then l else spawn_tick d l) (layer p) \<rparr>"
| "step (AnimationComplete i) p =
     p\<lparr> layer := map_option (onAnimationComplete i) (layer p) \<rparr>"
| "step (Click h i) p =
     p\<lparr> layer := map_option (onClick h i) (layer p) \<rparr>"
| "step (ResumeSettled h i) p =
     p\<lparr> layer := map_option (onResumeSettled h i) (layer p) \<rparr>"
| "step (PopSettled i) p =
     p\<lparr> layer := map_option (onClick_resumed i) (layer p) \<rparr>"

fun run :: "event list \<Rightarrow> Portfolio \<Rightarrow> Portfolio" where
  "run [] p = p"
| "run (e # es) p = run es (step e p)"

text \<open>The live set of the page: the balloons that are rendered.\<close>

definition live :: "Portfolio \<Rightarrow> Balloon list" where
  "live p = (case layer p of None \<Rightarrow> [] | Some l \<Rightarrow> balloons l)"

text \<open>Concrete inputs for the examples: draws that are all 0, a browser where no call throws.\<close>

definition zero_draws :: draws where
  "zero_draws = \<lparr> r_size = 0, r_x = 0, r_hue = 0, r_floatSec = 0, r_sway = 0 \<rparr>"

definition quiet_host :: audio_host where
  "quiet_host = \<lparr> throws = (\<lambda>c. False), ctx_suspended = False, currentTime = 0, sampleRate = 48000 \<rparr>"

definition zero_burst :: "nat \<Rightarrow> draws" where
  "zero_burst k = zero_draws"

definition half_burst :: "nat \<Rightarrow> draws" where
  "half_burst k = half_draws"

definition suspended_host :: audio_host where
  "suspended_host = \<lparr> throws = (\<lambda>c. False), ctx_suspended = True, currentTime = 0, sampleRate = 48000 \<rparr>"

definition deaf_host :: audio_host where
  "deaf_host = \<lparr> throws = (\<lambda>c. True), ctx_suspended = False, currentTime = 0, sampleRate = 48000 \<rparr>"

definition two_balloons :: "Balloon list" where
  "two_balloons = [randomBalloon 1 zero_draws, randomBalloon 2 half_draws]"

text \<open>
  What holds of a mounted layer in every state the page reaches: the interval is set, the
  volume ref follows the mute flag, the ids of the live set are pairwise distinct and all
  below the counter. On the page, the layer is mounted exactly while the balloons are on.
\<close>

definition layer_inv :: "bool \<Rightarrow> BalloonsLayer \<Rightarrow> bool" where
  "layer_inv m l \<longleftrightarrow>
     spawn l = Some 1600 \<and> volRef l = (if m then 0 else 0.06) \<and>
     distinct (map id_b (balloons l)) \<and> list_all (\<lambda>b. id_b b < idRef l) (balloons l)"

definition page_inv :: "Portfolio \<Rightarrow> bool" where
  "page_inv p \<longleftrightarrow>
     (case layer p of
        None \<Rightarrow> \<not> balloonsOn p
      | Some l \<Rightarrow> balloonsOn p \<and> layer_inv (muted p) l)"

definition muted_layer :: BalloonsLayer where
  "muted_layer = (mount True False zero_burst)\<lparr> volRef := 0 \<rparr>"

definition failed_click_layer :: BalloonsLayer where
  "failed_click_layer =
     (mount True False zero_burst)\<lparr> awaiting := [(1, Settled (Inl (Thrown Resume)))] \<rparr>"

section \<open>Properties of the Balloon Factory\<close>

lemma id_b_randomBalloon: "id_b (randomBalloon i r) = i"
  by (simp add: randomBalloon_def)

lemma hue_range:
  assumes "0 \<le> (r::real)" "r < 1"
  shows "0 \<le> \<lfloor>r * 360\<rfloor> \<and> \<lfloor>r * 360\<rfloor> \<le> (359::int)"
proof -
  have "r * 360 < 360" using assms by simp
  then have "\<lfloor>r * 360\<rfloor> < (360::int)" by linarith
  moreover have "0 \<le> r * 360" using assms by simp
  then have "(0::int) \<le> \<lfloor>r * 360\<rfloor>" by simp
  ultimately show ?thesis by simp
qed

text \<open>
  Claim C4. For every id and every five results of \<^verbatim>\<open>Math.random()\<close>, \<^verbatim>\<open>randomBalloon\<close>
  returns a balloon (it is a total function of its id and of the five draws, and reads or
  writes nothing else) that carries the id it was given and whose size lies in 36 to 72,
  horizontal position in 2 to 98, hue in the integers 0 to 359, ascent duration in 10 to 20
  and sway amplitude in 20 to 80. The current page draws the size from the narrower 38 to
  72; the older variant with \<^verbatim>\<open>36 + Math.random() * 36\<close> stays in the ranges as well.
\<close>

theorem C4_randomBalloon_ranges:
  assumes "unit_draws r"
  shows "id_b (randomBalloon i r) = i \<and> in_documented_ranges (randomBalloon i r) \<and>
         38 \<le> size_b (randomBalloon i r) \<and>
         id_b (randomBalloon_part_001 i r) = i \<and> in_documented_ranges (randomBalloon_part_001 i r)"
proof -
  from assms have s: "0 \<le> r_size r" "r_size r < 1" and x: "0 \<le> r_x r" "r_x r < 1"
    and h: "0 \<le> r_hue r" "r_hue r < 1" and f: "0 \<le> r_floatSec r" "r_floatSec r < 1"
    and w: "0 \<le> r_sway r" "r_sway r < 1"
    by (simp_all add: unit_draws_def)
  note hr = hue_range [OF h]
  have a: "in_documented_ranges (randomBalloon i r)"
    using s x f w hr by (simp add: in_documented_ranges_def randomBalloon_def)
  have b: "in_documented_ranges (randomBalloon_part_001 i r)"
    using s x f w hr by (simp add: in_documented_ranges_def randomBalloon_part_001_def)
  have c: "38 \<le> size_b (randomBalloon i r)"
    using s by (simp add: randomBalloon_def)
  show ?thesis
    using a b c by (simp add: randomBalloon_def randomBalloon_part_001_def)
qed

theorem C4_randomBalloon_ranges_witness:
  "unit_draws half_draws \<and> randomBalloon 7 half_draws =
     \<lparr> id_b = 7, x_b = 50, size_b = 55, hue = 180, floatSec = 15, sway = 50 \<rparr> \<and>
   in_documented_ranges (randomBalloon 7 half_draws) \<and>
   in_documented_ranges (randomBalloon_part_001 7 half_draws)"
proof -
  have u: "unit_draws half_draws"
    by (simp add: unit_draws_def half_draws_def)
  have v: "randomBalloon 7 half_draws =
     \<lparr> id_b = 7, x_b = 50, size_b = 55, hue = 180, floatSec = 15, sway = 50 \<rparr>"
    by (simp add: randomBalloon_def half_draws_def)
  show ?thesis
    using u v C4_randomBalloon_ranges [OF u, of 7] by simp
qed

section \<open>The population of the live set\<close>

lemma length_remove_id: "length (remove_id i b) \<le> length b"
  by (simp add: remove_id_def)

lemma length_burst: "length (burst n ds) = 12"
  by (simp add: burst_def)

lemma pop_fields:
  "balloons (snd (pop h l)) = balloons l" "idRef (snd (pop h l)) = idRef l"
  "spawn (snd (pop h l)) = spawn l" "volRef (snd (pop h l)) = volRef l"
  "awaiting (snd (pop h l)) = awaiting l" "console (snd (pop h l)) = console l"
  "popCalls (snd (pop h l)) = popCalls l + 1"
  by (simp_all add: pop_def Let_def split: prod.splits sum.splits)

lemma pop_resumed_fields:
  "balloons (snd (pop_resumed h l)) = balloons l" "idRef (snd (pop_resumed h l)) = idRef l"
  "spawn (snd (pop_resumed h l)) = spawn l" "volRef (snd (pop_resumed h l)) = volRef l"
  "awaiting (snd (pop_resumed h l)) = awaiting l" "console (snd (pop_resumed h l)) = console l"
  "popCalls (snd (pop_resumed h l)) = popCalls l"
  by (simp_all add: pop_resumed_def Let_def split: prod.splits sum.splits)

lemma onClick_eq:
  "onClick h i l =
     (snd (pop h (l\<lparr> console := console l @ [BalloonClicked i] \<rparr>)))
       \<lparr> awaiting := awaiting l @ [(i, fst (pop h (l\<lparr> console := console l @ [BalloonClicked i] \<rparr>)))] \<rparr>"
proof -
  let ?l1 = "l\<lparr> console := console l @ [BalloonClicked i] \<rparr>"
  obtain pr l2 where p: "pop h ?l1 = (pr, l2)" by (cases "pop h ?l1")
  from pop_fields(5) [of h ?l1] p have "awaiting l2 = awaiting l" by simp
  with p show ?thesis by (simp add: onClick_def Let_def)
qed

lemma onClick_fields:
  "spawn (onClick h i l) = spawn l" "volRef (onClick h i l) = volRef l"
  "idRef (onClick h i l) = idRef l" "balloons (onClick h i l) = balloons l"
  "popCalls (onClick h i l) = popCalls l + 1"
  by (simp_all add: onClick_eq pop_fields)

lemma balloons_onClick: "balloons (onClick h i l) = balloons l"
  by (rule onClick_fields)

lemma onResumeSettled_eq:
  "onResumeSettled h i l =
     (if (i, Pending) \<in> set (awaiting l)
      then (snd (pop_resumed h l))\<lparr> awaiting := settle i (fst (pop_resumed h l)) (awaiting l) \<rparr>
      else l)"
proof -
  obtain r l1 where p: "pop_resumed h l = (r, l1)" by (cases "pop_resumed h l")
  from pop_resumed_fields(5) [of h l] p have "awaiting l1 = awaiting l" by simp
  with p show ?thesis by (simp add: onResumeSettled_def)
qed

lemma onResumeSettled_fields:
  "spawn (onResumeSettled h i l) = spawn l" "volRef (onResumeSettled h i l) = volRef l"
  "idRef (onResumeSettled h i l) = idRef l" "balloons (onResumeSettled h i l) = balloons l"
  "popCalls (onResumeSettled h i l) = popCalls l"
  by (simp_all add: onResumeSettled_eq pop_resumed_fields)

lemma balloons_onClick_resumed:
  "balloons (onClick_resumed i l) =
     (if has_settled i l then remove_id i (balloons l) else balloons l)"
  by (cases "find (\<lambda>a. fst a = i \<and> snd a \<noteq> Pending) (awaiting l)")
     (simp_all add: onClick_resumed_def has_settled_def Let_def split: promise.splits sum.splits)

lemma length_balloons_onClick_resumed:
  "length (balloons (onClick_resumed i l)) \<le> length (balloons l)"
  by (simp add: balloons_onClick_resumed length_remove_id)

lemma length_spawn_tick:
  "length (balloons (spawn_tick d l)) =
     (if length (balloons l) > 35 then length (balloons l) else length (balloons l) + 1)"
  by (simp add: spawn_tick_def)

lemma spawn_spawn_tick: "spawn (spawn_tick d l) = spawn l"
  by (simp add: spawn_tick_def)

lemma balloons_mount: "balloons (mount True m ds) = burst 1 ds"
  by (simp add: mount_def effect_def BalloonsLayer_init_def)

lemma spawn_mount: "spawn (mount True m ds) = Some 1600"
  by (simp add: mount_def effect_def)

lemma layer_init: "layer (Portfolio_init ds) = Some (mount True False ds)"
  by (simp add: Portfolio_init_def)

lemma live_init: "live (Portfolio_init ds) = burst 1 ds"
  by (simp add: live_def Portfolio_init_def balloons_mount)

lemma run_append: "run (es @ fs) p = run fs (run es p)"
  by (induction es arbitrary: p) simp_all

text \<open>No event takes the live set of the page from at most 36 balloons to more than 36.\<close>

lemma step_cap:
  assumes "length (live p) \<le> 36"
  shows "length (live (step e p)) \<le> 36"
proof (cases e)
  case (ToggleBalloons ds)
  then show ?thesis
    by (simp add: live_def balloons_mount length_burst)
next
  case ToggleMute
  with assms show ?thesis
    by (cases "layer p") (simp_all add: live_def)
next
  case (SpawnTick d)
  with assms show ?thesis
    by (cases "layer p") (simp_all add: live_def length_spawn_tick)
next
  case (AnimationComplete i)
  with assms show ?thesis
    using length_remove_id [of i]
    by (cases "layer p") (auto simp: live_def onAnimationComplete_def intro: order_trans)
next
  case (Click h i)
  with assms show ?thesis
    by (cases "layer p") (simp_all add: live_def balloons_onClick)
next
  case (ResumeSettled h i)
  with assms show ?thesis
    by (cases "layer p") (simp_all add: live_def onResumeSettled_fields)
next
  case (PopSettled i)
  with assms show ?thesis
    using length_balloons_onClick_resumed [of i]
    by (cases "layer p") (auto simp: live_def intro: order_trans)
qed

lemma run_cap: "length (live p) \<le> 36 \<Longrightarrow> length (live (run es p)) \<le> 36"
  by (induction es arbitrary: p) (simp_all add: step_cap)

lemma reachable_cap: "length (live (run es (Portfolio_init ds))) \<le> 36"
  by (rule run_cap) (simp add: live_init length_burst)

text \<open>While the timer is set and the guard lets them, \<open>n\<close> ticks add \<open>n\<close> balloons.\<close>

lemma run_ticks:
  assumes "layer p = Some l" "spawn l \<noteq> None" "length (balloons l) + n \<le> 36"
  shows "\<exists>l'. layer (run (replicate n (SpawnTick d)) p) = Some l' \<and> spawn l' = spawn l \<and>
           length (balloons l') = length (balloons l) + n"
  using assms
proof (induction n arbitrary: p l)
  case 0
  then show ?case by simp
next
  case (Suc n)
  let ?l = "spawn_tick d l"
  have a: "layer (step (SpawnTick d) p) = Some ?l"
    using Suc.prems by auto
  have b: "spawn ?l \<noteq> None"
    using Suc.prems by (simp add: spawn_spawn_tick)
  have c: "length (balloons ?l) = length (balloons l) + 1"
    using Suc.prems by (simp add: length_spawn_tick)
  have d: "length (balloons ?l) + n \<le> 36"
    using Suc.prems c by simp
  from Suc.IH [OF a b d] c show ?case
    by (simp add: spawn_spawn_tick)
qed

lemma init_ticks:
  assumes "n \<le> 24"
  shows "\<exists>l'. layer (run (replicate n (SpawnTick d)) (Portfolio_init ds)) = Some l' \<and>
           spawn l' = Some 1600 \<and> length (balloons l') = 12 + n"
  using run_ticks [OF layer_init, of ds n d] assms
  by (simp add: spawn_mount balloons_mount length_burst)

lemma step_tick_length:
  assumes "layer p = Some l" "spawn l \<noteq> None"
  shows "length (live (step (SpawnTick d) p)) =
           (if length (balloons l) > 35 then length (balloons l) else length (balloons l) + 1)"
  using assms by (auto simp: live_def length_spawn_tick)

lemma step_tick_full:
  assumes "length (live p) > 35"
  shows "step (SpawnTick d) p = p"
proof (cases "layer p")
  case None
  then show ?thesis by simp
next
  case (Some l)
  with assms have "length (balloons l) > 35" by (simp add: live_def)
  then have "spawn_tick d l = l" by (simp add: spawn_tick_def)
  with Some show ?thesis by simp
qed

lemma live_after_23_ticks:
  "length (live (run (replicate 23 (SpawnTick zero_draws)) (Portfolio_init zero_burst))) = 35"
proof -
  obtain l where "layer (run (replicate 23 (SpawnTick zero_draws)) (Portfolio_init zero_burst)) = Some l"
      "length (balloons l) = 35"
    using init_ticks [of 23 zero_draws zero_burst] by auto
  then show ?thesis by (simp add: live_def)
qed

lemma live_after_24_ticks:
  "length (live (run (replicate 24 (SpawnTick zero_draws)) (Portfolio_init ds))) = 36"
proof -
  obtain l where "layer (run (replicate 24 (SpawnTick zero_draws)) (Portfolio_init ds)) = Some l"
      "length (balloons l) = 36"
    using init_ticks [of 24 zero_draws ds] by auto
  then show ?thesis by (simp add: live_def)
qed

text \<open>
  Claim C1, as the specification states it, fails: the page is loaded (the burst of 12),
  the interval fires 23 times and the live set holds 35 balloons; the next firing of the
  interval adds a balloon, and the live set holds 36. The guard of the interval's callback
  is \<^verbatim>\<open>b.length > 35\<close>, which lets a tick through at 35.
\<close>

theorem C1_tick_at_35_counterexample:
  "length (live (run (replicate 23 (SpawnTick zero_draws)) (Portfolio_init zero_burst))) = 35 \<and>
   length (live (step (SpawnTick zero_draws)
      (run (replicate 23 (SpawnTick zero_draws)) (Portfolio_init zero_burst)))) = 36"
proof -
  obtain l where l: "layer (run (replicate 23 (SpawnTick zero_draws)) (Portfolio_init zero_burst)) = Some l"
      "spawn l = Some 1600" "length (balloons l) = 35"
    using init_ticks [of 23 zero_draws zero_burst] by auto
  have "spawn l \<noteq> None" using l by simp
  from step_tick_length [OF l(1) this, of zero_draws] l show ?thesis
    by (simp add: live_def)
qed

text \<open>
  Claim C1, amended. For every sequence of events of the page from its load (the burst, the
  ticks, and also removals, clicks and the two buttons, in any order), the size of the live
  set never exceeds 36; and a spawn tick that fires when the live set holds 36 balloons
  leaves the page state unchanged: it adds no balloon and evicts none.
\<close>

theorem C1_cap_is_36:
  "length (live (run es (Portfolio_init ds))) \<le> 36 \<and>
   (length (live p) = 36 \<longrightarrow> step (SpawnTick d) p = p)"
  using reachable_cap [of es ds] step_tick_full [of p d] by simp

theorem C1_cap_is_36_witness:
  "length (live (run (replicate 24 (SpawnTick zero_draws)) (Portfolio_init zero_burst))) = 36 \<and>
   step (SpawnTick zero_draws) (run (replicate 24 (SpawnTick zero_draws)) (Portfolio_init zero_burst)) =
     run (replicate 24 (SpawnTick zero_draws)) (Portfolio_init zero_burst)"
  using live_after_24_ticks [of zero_burst]
    C1_cap_is_36 [of "[]" zero_burst
      "run (replicate 24 (SpawnTick zero_draws)) (Portfolio_init zero_burst)" zero_draws]
  by simp

text \<open>
  Claim C10. The callback of the interval appends one new balloon, with the next id,
  exactly when the live set holds at most 35 balloons, and returns the state unchanged
  otherwise; so the live set of the page never holds more than 36 balloons, whatever the
  events, and 36 is reached (by 24 ticks after the load of the page).
\<close>

theorem C10_guard_lets_36:
  "spawn_tick d l =
     (if length (balloons l) \<le> 35
      then l\<lparr> balloons := balloons l @ [randomBalloon (idRef l) d], idRef := idRef l + 1 \<rparr>
      else l) \<and>
   length (live (run es (Portfolio_init ds))) \<le> 36 \<and>
   (\<exists>es'. length (live (run es' (Portfolio_init ds))) = 36)"
proof -
  have a: "spawn_tick d l =
     (if length (balloons l) \<le> 35
      then l\<lparr> balloons := balloons l @ [randomBalloon (idRef l) d], idRef := idRef l + 1 \<rparr>
      else l)"
    by (simp add: spawn_tick_def)
  have b: "\<exists>es'. length (live (run es' (Portfolio_init ds))) = 36"
    using live_after_24_ticks [of ds] ..
  show ?thesis
    using a b reachable_cap [of es ds] by blast
qed

section \<open>Invariants of the page\<close>

lemma ids_burst: "map id_b (burst n ds) = [n..<n + 12]"
proof -
  have "map id_b (burst n ds) = map (\<lambda>k. k + n) [0..<12]"
    by (simp add: burst_def id_b_randomBalloon comp_def add.commute)
  also have "\<dots> = [n..<12 + n]"
    by (rule map_add_upt)
  finally show ?thesis by (simp add: add.commute)
qed

lemma layer_inv_mount: "layer_inv m (mount True m ds)"
proof -
  have "balloons (mount True m ds) = burst 1 ds" by (rule balloons_mount)
  moreover have "idRef (mount True m ds) = 13"
    by (simp add: mount_def effect_def BalloonsLayer_init_def)
  moreover have "volRef (mount True m ds) = (if m then 0 else 0.06)"
    by (simp add: mount_def effect_def BalloonsLayer_init_def)
  moreover have "list_all (\<lambda>b. id_b b < 13) (burst 1 ds)"
  proof -
    have "list_all (\<lambda>i. i < 13) (map id_b (burst 1 ds))"
      unfolding ids_burst by (simp add: list_all_iff)
    then show ?thesis by (simp add: list_all_iff)
  qed
  moreover have "distinct (map id_b (burst 1 ds))"
    unfolding ids_burst by simp
  ultimately show ?thesis
    by (simp add: layer_inv_def spawn_mount)
qed

lemma distinct_remove_id: "distinct (map id_b b) \<Longrightarrow> distinct (map id_b (remove_id i b))"
  by (simp add: remove_id_def distinct_map_filter)

lemma list_all_remove_id: "list_all P b \<Longrightarrow> list_all P (remove_id i b)"
  by (simp add: remove_id_def list_all_iff)

lemma layer_inv_remove:
  "layer_inv m l \<Longrightarrow> layer_inv m (l\<lparr> balloons := remove_id i (balloons l) \<rparr>)"
  by (simp add: layer_inv_def distinct_remove_id list_all_remove_id)

lemma layer_inv_spawn_tick: "layer_inv m l \<Longrightarrow> layer_inv m (spawn_tick d l)"
  by (auto simp: layer_inv_def spawn_tick_def id_b_randomBalloon list_all_iff)

lemma layer_inv_onClick: "layer_inv m l \<Longrightarrow> layer_inv m (onClick h i l)"
  by (simp add: layer_inv_def onClick_fields)

lemma onClick_resumed_fields:
  "spawn (onClick_resumed i l) = spawn l" "volRef (onClick_resumed i l) = volRef l"
  "idRef (onClick_resumed i l) = idRef l" "popCalls (onClick_resumed i l) = popCalls l"
  by (simp_all add: onClick_resumed_def Let_def split: option.splits promise.splits sum.splits)

lemma layer_inv_onResumeSettled: "layer_inv m l \<Longrightarrow> layer_inv m (onResumeSettled h i l)"
  by (simp add: layer_inv_def onResumeSettled_fields)

lemma layer_inv_onClick_resumed: "layer_inv m l \<Longrightarrow> layer_inv m (onClick_resumed i l)"
  by (simp add: layer_inv_def onClick_resumed_fields balloons_onClick_resumed
      distinct_remove_id list_all_remove_id)

lemma page_inv_init: "page_inv (Portfolio_init ds)"
  by (simp add: page_inv_def Portfolio_init_def layer_inv_mount)

lemma page_inv_step:
  assumes "page_inv p"
  shows "page_inv (step e p)"
proof (cases e)
  case (ToggleBalloons ds)
  with assms show ?thesis
    by (simp add: page_inv_def layer_inv_mount split: option.splits)
next
  case ToggleMute
  with assms show ?thesis
    by (auto simp: page_inv_def layer_inv_def split: option.splits)
next
  case (SpawnTick d)
  with assms show ?thesis
    by (auto simp: page_inv_def layer_inv_spawn_tick split: option.splits)
next
  case (AnimationComplete i)
  with assms show ?thesis
    by (auto simp: page_inv_def onAnimationComplete_def layer_inv_remove split: option.splits)
next
  case (Click h i)
  with assms show ?thesis
    by (auto simp: page_inv_def layer_inv_onClick split: option.splits)
next
  case (ResumeSettled h i)
  with assms show ?thesis
    by (auto simp: page_inv_def layer_inv_onResumeSettled split: option.splits)
next
  case (PopSettled i)
  with assms show ?thesis
    by (auto simp: page_inv_def layer_inv_onClick_resumed split: option.splits)
qed

lemma page_inv_run: "page_inv p \<Longrightarrow> page_inv (run es p)"
  by (induction es arbitrary: p) (simp_all add: page_inv_step)

lemma page_inv_reachable: "page_inv (run es (Portfolio_init ds))"
  by (rule page_inv_run) (rule page_inv_init)

text \<open>In every state the page reaches, the ids of the live set are pairwise distinct.\<close>

lemma live_ids_distinct: "distinct (map id_b (live (run es (Portfolio_init ds))))"
  using page_inv_reachable [of es ds]
  by (auto simp: page_inv_def layer_inv_def live_def split: option.splits)

section \<open>Removal and the click handlers\<close>

lemma remove_id_absent: "i \<notin> id_b ` set b \<Longrightarrow> remove_id i b = b"
  by (simp add: remove_id_def filter_id_conv image_iff) metis

lemma remove_id_idem: "remove_id i (remove_id i b) = remove_id i b"
  by (simp add: remove_id_def)

lemma remove_id_present:
  assumes "distinct (map id_b b)" "x \<in> set b"
  shows "remove_id (id_b x) b = remove1 x b"
  using assms
proof (induction b)
  case Nil
  then show ?case by simp
next
  case (Cons y ys)
  show ?case
  proof (cases "y = x")
    case True
    with Cons.prems have "id_b x \<notin> id_b ` set ys" by simp
    then have "remove_id (id_b x) ys = ys" by (rule remove_id_absent)
    with True show ?thesis by (simp add: remove_id_def)
  next
    case False
    with Cons.prems have "x \<in> set ys" "id_b y \<noteq> id_b x" by auto
    with Cons False show ?thesis by (auto simp: remove_id_def)
  qed
qed

text \<open>When \<^verbatim>\<open>pop()\<close> returns a pending promise, and that its promise is never rejected.\<close>

lemma pop_promise:
  "fst (pop h l) =
     (if ctx_suspended h \<and> (ctxRef l \<or> \<not> throws h NewAudioContext) \<and> \<not> throws h Resume
      then Pending else Settled (Inr ()))"
  by (simp add: pop_def pop_cmds_def Let_def split: prod.splits sum.splits)

lemma pop_promise_console: "fst (pop h (l\<lparr> console := c \<rparr>)) = fst (pop h l)"
  by (simp add: pop_promise)

lemma pop_resumed_result: "fst (pop_resumed h l) = Inr ()"
  by (simp add: pop_resumed_def Let_def split: prod.splits sum.splits)

lemma pop_part_000_result: "fst (pop_part_000 h l) = Inr ()"
  by (simp add: pop_part_000_def Let_def split: prod.splits sum.splits)

lemma onClick_part_000_fields:
  "popCalls (onClick_part_000 h i l) = popCalls l + 1"
  "balloons (onClick_part_000 h i l) = remove_id i (balloons l)"
  by (simp_all add: onClick_part_000_def pop_part_000_def Let_def split: prod.splits sum.splits)

lemma awaiting_onClick: "awaiting (onClick h i l) = awaiting l @ [(i, fst (pop h l))]"
  by (simp add: onClick_eq pop_promise_console)

lemma settle_makes_settled: "(i, Pending) \<in> set as \<Longrightarrow> (i, Settled r) \<in> set (settle i r as)"
  by (induction as) auto

lemma settle_keeps_settled: "(j, Settled q) \<in> set as \<Longrightarrow> (j, Settled q) \<in> set (settle i r as)"
  by (induction as) auto

lemma has_settled_iff: "has_settled i l \<longleftrightarrow> (\<exists>r. (i, Settled r) \<in> set (awaiting l))"
proof
  assume "has_settled i l"
  then obtain a where a: "a \<in> set (awaiting l)" "fst a = i" "snd a \<noteq> Pending"
    by (auto simp: has_settled_def find_None_iff)
  then obtain r where "snd a = Settled r" by (cases "snd a") auto
  with a have "a = (i, Settled r)" by (simp add: prod_eq_iff)
  with a have "(i, Settled r) \<in> set (awaiting l)" by simp
  then show "\<exists>r. (i, Settled r) \<in> set (awaiting l)" ..
next
  assume "\<exists>r. (i, Settled r) \<in> set (awaiting l)"
  then show "has_settled i l"
    by (force simp: has_settled_def find_None_iff)
qed

lemma awaiting_onResumeSettled:
  "awaiting (onResumeSettled h i l) =
     (if (i, Pending) \<in> set (awaiting l) then settle i (Inr ()) (awaiting l) else awaiting l)"
  by (simp add: onResumeSettled_eq pop_resumed_result)

lemma has_settled_onResumeSettled:
  assumes "has_settled i l \<or> (i, Pending) \<in> set (awaiting l)"
  shows "has_settled i (onResumeSettled h i l)"
proof (cases "(i, Pending) \<in> set (awaiting l)")
  case True
  then show ?thesis
    using settle_makes_settled [of i "awaiting l" "Inr ()"]
    by (auto simp: has_settled_iff awaiting_onResumeSettled)
next
  case False
  with assms show ?thesis
    by (simp add: has_settled_iff awaiting_onResumeSettled)
qed

lemma has_settled_click_resume: "has_settled i (onResumeSettled h' i (onClick h i l))"
proof (rule has_settled_onResumeSettled)
  show "has_settled i (onClick h i l) \<or> (i, Pending) \<in> set (awaiting (onClick h i l))"
    by (cases "fst (pop h l)") (auto simp: has_settled_iff awaiting_onClick)
qed

lemma has_settled_click:
  "has_settled i (onClick h i l) \<longleftrightarrow> has_settled i l \<or> fst (pop h l) \<noteq> Pending"
  by (cases "fst (pop h l)") (auto simp: has_settled_iff awaiting_onClick)

lemma onClick_resumed_not_settled: "\<not> has_settled i l \<Longrightarrow> onClick_resumed i l = l"
  by (cases "find (\<lambda>a. fst a = i \<and> snd a \<noteq> Pending) (awaiting l)")
     (simp_all add: has_settled_def onClick_resumed_def)

lemma awaiting_spawn_tick: "awaiting (spawn_tick d l) = awaiting l"
  by (simp add: spawn_tick_def)

lemma has_settled_spawn_tick: "has_settled i (spawn_tick d l) = has_settled i l"
  by (simp add: has_settled_def awaiting_spawn_tick)

lemma settle_any_outcome:
  assumes "(i, Settled r) \<in> set (awaiting l)"
  shows "balloons (onClick_resumed i l) = remove_id i (balloons l)"
  using assms by (auto simp: balloons_onClick_resumed has_settled_iff)

lemma balloons_click_then_settle:
  "fst (pop h l) \<noteq> Pending \<Longrightarrow> balloons (onClick_resumed i (onClick h i l)) = remove_id i (balloons l)"
  by (simp add: balloons_onClick_resumed has_settled_click onClick_fields)

lemma balloons_click_parked:
  "fst (pop h l) = Pending \<Longrightarrow> \<not> has_settled i l \<Longrightarrow>
     balloons (onClick_resumed i (onClick h i l)) = balloons l"
  by (simp add: balloons_onClick_resumed has_settled_click onClick_fields)

lemma balloons_click_resume_settle:
  "balloons (onClick_resumed i (onResumeSettled h' i (onClick h i l))) = remove_id i (balloons l)"
  by (simp add: balloons_onClick_resumed has_settled_click_resume onResumeSettled_fields onClick_fields)

lemma run_cmds_no_throw: "list_all (\<lambda>c. \<not> thr c) cs \<Longrightarrow> run_cmds thr cs = (Inr (), cs)"
  by (induction cs) simp_all

lemma muted_graph:
  "pop_graph (max 0.0001 0) 0 now rate =
     (pop_graph (max 0.0001 0.06) 0.06 now rate)
       [1 := SetValueAtTime Gain_gain 0.0001 now, 12 := SetValueAtTime NoiseGain_gain 0 now]"
  by (simp add: pop_graph_def Let_def)

lemma ids_remove_id: "map id_b (remove_id i b) = filter (\<lambda>j. j \<noteq> i) (map id_b b)"
  by (simp add: remove_id_def filter_map comp_def)

lemma live_step_complete:
  "live (step (AnimationComplete i) p) = remove_id i (live p)"
  by (cases "layer p") (simp_all add: live_def onAnimationComplete_def remove_id_def)

lemma live_run_complete:
  "map id_b (live (run (map AnimationComplete js) p)) = filter (\<lambda>j. j \<notin> set js) (map id_b (live p))"
proof (induction js arbitrary: p)
  case Nil
  then show ?case by simp
next
  case (Cons j js)
  show ?case
    by (simp add: Cons.IH live_step_complete ids_remove_id conj_commute del: step.simps)
qed

lemma five_left:
  "map id_b (live (run (map AnimationComplete [1..<8]) (Portfolio_init zero_burst))) = [8..<13]"
proof -
  have "[1..<13] = [1..<8] @ [8..<13]"
    using upt_add_eq_append [of 1 8 5] by simp
  then have "filter (\<lambda>j. j \<notin> set [1..<8]) [1..<13] = [8..<13]"
    by (simp add: filter_empty_conv filter_id_conv del: upt.simps)
  then show ?thesis
    by (simp add: live_run_complete live_init ids_burst)
qed

lemma issued_pop_no_throw:
  assumes "list_all (\<lambda>c. \<not> throws h c) (pop_cmds h l)"
  shows "issued (snd (pop h l)) = issued l @ pop_cmds h l"
  using run_cmds_no_throw [OF assms]
  by (simp add: pop_def Let_def)

lemma issued_pop_resumed_no_throw:
  assumes "\<not> throws h Resume" "list_all (\<lambda>c. \<not> throws h c) (graph_cmds h l)"
  shows "issued (snd (pop_resumed h l)) = issued l @ graph_cmds h l"
  using run_cmds_no_throw [OF assms(2)] assms(1)
  by (simp add: pop_resumed_def Let_def)

lemma issued_pop_resumed_rejected:
  assumes "throws h Resume"
  shows "issued (snd (pop_resumed h l)) = issued l"
  using assms by (simp add: pop_resumed_def Let_def)

section \<open>The claims about spawning and removal\<close>

text \<open>
  Claim C5. In a state \<open>p\<close> that the page reaches: if the balloons are off (a clean
  disabled state: the live set is empty), the toggle that enables them puts exactly the 12
  balloons of the burst into the live set at once and sets the interval with a delay of
  1600 milliseconds; while the balloons are on and the live set holds fewer than 35
  balloons, each firing of the interval appends exactly one balloon, whose id is new to the
  live set; and while the balloons are off a firing of the interval changes nothing (the
  interval was cleared with the layer).
\<close>

theorem C5_enable_burst_then_ticks:
  assumes "p = run es (Portfolio_init ds0)"
  shows
  "(\<not> balloonsOn p \<longrightarrow>
      live p = [] \<and>
      live (step (ToggleBalloons ds) p) = burst 1 ds \<and>
      length (live (step (ToggleBalloons ds) p)) = 12 \<and>
      map_option spawn (layer (step (ToggleBalloons ds) p)) = Some (Some 1600)) \<and>
   (balloonsOn p \<and> length (live p) < 35 \<longrightarrow>
      (\<exists>b. live (step (SpawnTick d) p) = live p @ [b] \<and> id_b b \<notin> id_b ` set (live p))) \<and>
   (\<not> balloonsOn p \<longrightarrow> step (SpawnTick d) p = p \<and> live (step (SpawnTick d) p) = [])"
proof -
  have inv: "page_inv p" using assms by (simp add: page_inv_reachable)
  have a: "live p = [] \<and> live (step (ToggleBalloons ds) p) = burst 1 ds \<and>
      length (live (step (ToggleBalloons ds) p)) = 12 \<and>
      map_option spawn (layer (step (ToggleBalloons ds) p)) = Some (Some 1600)"
    if "\<not> balloonsOn p"
    using that inv
    by (simp add: page_inv_def live_def balloons_mount length_burst spawn_mount split: option.splits)
  have b: "\<exists>b. live (step (SpawnTick d) p) = live p @ [b] \<and> id_b b \<notin> id_b ` set (live p)"
    if "balloonsOn p" "length (live p) < 35"
  proof -
    from that inv obtain l where l: "layer p = Some l" "layer_inv (muted p) l"
      by (auto simp: page_inv_def split: option.splits)
    from l that have "live (step (SpawnTick d) p) = live p @ [randomBalloon (idRef l) d]"
      by (simp add: live_def layer_inv_def spawn_tick_def)
    moreover from l have "id_b (randomBalloon (idRef l) d) \<notin> id_b ` set (live p)"
      by (auto simp: live_def layer_inv_def id_b_randomBalloon list_all_iff)
    ultimately show ?thesis by blast
  qed
  have c: "step (SpawnTick d) p = p \<and> live (step (SpawnTick d) p) = []" if "\<not> balloonsOn p"
    using that inv by (simp add: page_inv_def live_def split: option.splits)
  show ?thesis using a b c by blast
qed

theorem C5_enable_burst_then_ticks_witness:
  "\<not> balloonsOn (run [ToggleBalloons zero_burst] (Portfolio_init zero_burst)) \<and>
   live (run [ToggleBalloons zero_burst] (Portfolio_init zero_burst)) = [] \<and>
   length (live (step (ToggleBalloons half_burst)
      (run [ToggleBalloons zero_burst] (Portfolio_init zero_burst)))) = 12 \<and>
   step (SpawnTick zero_draws) (run [ToggleBalloons zero_burst] (Portfolio_init zero_burst)) =
      run [ToggleBalloons zero_burst] (Portfolio_init zero_burst) \<and>
   balloonsOn (Portfolio_init zero_burst) \<and>
   length (live (Portfolio_init zero_burst)) = 12 \<and>
   length (live (step (SpawnTick zero_draws) (Portfolio_init zero_burst))) = 13"
proof -
  have off: "\<not> balloonsOn (run [ToggleBalloons zero_burst] (Portfolio_init zero_burst))"
    by (simp add: Portfolio_init_def)
  have on: "balloonsOn (Portfolio_init zero_burst)"
    by (simp add: Portfolio_init_def)
  have len: "length (live (Portfolio_init zero_burst)) = 12"
    by (simp add: live_init length_burst)
  note a = C5_enable_burst_then_ticks [of "run [ToggleBalloons zero_burst] (Portfolio_init zero_burst)"
      "[ToggleBalloons zero_burst]" zero_burst half_burst zero_draws]
  note b = C5_enable_burst_then_ticks [of "Portfolio_init zero_burst" "[]" zero_burst half_burst zero_draws]
  have "length (live (step (SpawnTick zero_draws) (Portfolio_init zero_burst))) = 13"
    using b on len by (auto simp del: step.simps)
  then show ?thesis
    using a off on len by (simp add: length_burst del: step.simps run.simps)
qed

text \<open>
  Claim C7. \<open>remove_id i\<close> leaves a live set without balloon \<open>i\<close> as it is, and takes
  balloon \<open>i\<close> out if it is there (with the ids distinct, as they are on the page, exactly
  that one balloon); no balloon with id \<open>i\<close> is left. A second \<open>remove_id i\<close> changes
  nothing. So of the end of the ascent and the removal by a click on one balloon, the
  second to arrive has no effect on the live set, in \<^verbatim>\<open>src/App.tsx\<close> and in the older
  variants alike. In \<^verbatim>\<open>src/App.tsx\<close> the removal by a click is the continuation of the
  handler; it is stated for a handler whose promise has settled (\<open>has_settled\<close>), and for
  the two ways a click gets there: \<^verbatim>\<open>pop()\<close> returning a promise that is not pending, and
  the promise of \<^verbatim>\<open>resume()\<close> settling.
\<close>

theorem C7_remove_idempotent:
  "(i \<notin> id_b ` set b \<longrightarrow> remove_id i b = b) \<and>
   (distinct (map id_b b) \<and> x \<in> set b \<longrightarrow> remove_id (id_b x) b = remove1 x b) \<and>
   set (remove_id i b) = {y \<in> set b. id_b y \<noteq> i} \<and>
   remove_id i (remove_id i b) = remove_id i b \<and>
   onAnimationComplete i (onAnimationComplete i l) = onAnimationComplete i l \<and>
   balloons (onClick_resumed i (onAnimationComplete i l)) = balloons (onAnimationComplete i l) \<and>
   balloons (onClick_resumed i (onClick h i (onAnimationComplete i l))) =
     balloons (onAnimationComplete i l) \<and>
   balloons (onClick_resumed i (onResumeSettled h' i (onClick h i (onAnimationComplete i l)))) =
     balloons (onAnimationComplete i l) \<and>
   (has_settled i l \<longrightarrow>
      balloons (onAnimationComplete i (onClick_resumed i l)) = balloons (onClick_resumed i l)) \<and>
   (fst (pop h l) \<noteq> Pending \<longrightarrow>
      balloons (onAnimationComplete i (onClick_resumed i (onClick h i l))) =
        balloons (onClick_resumed i (onClick h i l))) \<and>
   balloons (onAnimationComplete i (onClick_resumed i (onResumeSettled h' i (onClick h i l)))) =
     balloons (onClick_resumed i (onResumeSettled h' i (onClick h i l))) \<and>
   balloons (onClick_part_000 h i (onAnimationComplete i l)) = balloons (onAnimationComplete i l) \<and>
   balloons (onAnimationComplete i (onClick_part_000 h i l)) = balloons (onClick_part_000 h i l)"
proof -
  have a: "i \<notin> id_b ` set b \<longrightarrow> remove_id i b = b"
    by (simp add: remove_id_absent)
  have b: "distinct (map id_b b) \<and> x \<in> set b \<longrightarrow> remove_id (id_b x) b = remove1 x b"
    by (simp add: remove_id_present)
  have c: "set (remove_id i b) = {y \<in> set b. id_b y \<noteq> i}"
    by (simp add: remove_id_def)
  have d: "onAnimationComplete i (onAnimationComplete i l) = onAnimationComplete i l"
    by (simp add: onAnimationComplete_def remove_id_idem)
  have e0: "balloons (onClick_resumed i (onAnimationComplete i l)) = balloons (onAnimationComplete i l)"
    by (simp add: balloons_onClick_resumed onAnimationComplete_def remove_id_idem)
  have e: "balloons (onClick_resumed i (onClick h i (onAnimationComplete i l))) =
     balloons (onAnimationComplete i l)"
    by (simp add: balloons_onClick_resumed onClick_fields onAnimationComplete_def remove_id_idem)
  have e': "balloons (onClick_resumed i (onResumeSettled h' i (onClick h i (onAnimationComplete i l)))) =
     balloons (onAnimationComplete i l)"
    by (simp add: balloons_click_resume_settle onAnimationComplete_def remove_id_idem)
  have f0: "has_settled i l \<longrightarrow>
      balloons (onAnimationComplete i (onClick_resumed i l)) = balloons (onClick_resumed i l)"
    by (simp add: balloons_onClick_resumed onAnimationComplete_def remove_id_idem)
  have f: "fst (pop h l) \<noteq> Pending \<longrightarrow>
      balloons (onAnimationComplete i (onClick_resumed i (onClick h i l))) =
        balloons (onClick_resumed i (onClick h i l))"
    by (simp add: balloons_click_then_settle onAnimationComplete_def remove_id_idem)
  have f': "balloons (onAnimationComplete i (onClick_resumed i (onResumeSettled h' i (onClick h i l)))) =
     balloons (onClick_resumed i (onResumeSettled h' i (onClick h i l)))"
    by (simp add: balloons_click_resume_settle onAnimationComplete_def remove_id_idem)
  have g: "balloons (onClick_part_000 h i (onAnimationComplete i l)) = balloons (onAnimationComplete i l)"
    by (simp add: onClick_part_000_fields onAnimationComplete_def remove_id_idem)
  have k: "balloons (onAnimationComplete i (onClick_part_000 h i l)) = balloons (onClick_part_000 h i l)"
    by (simp add: onClick_part_000_fields onAnimationComplete_def remove_id_idem)
  show ?thesis
    using a b c d e0 e e' f0 f f' g k remove_id_idem [of i b] by blast
qed

theorem C7_remove_idempotent_witness:
  "remove_id 3 two_balloons = two_balloons \<and>
   remove_id 1 two_balloons = [randomBalloon 2 half_draws] \<and>
   remove_id 1 (remove_id 1 two_balloons) = [randomBalloon 2 half_draws] \<and>
   has_settled 1 failed_click_layer \<and>
   balloons (onAnimationComplete 1 (onClick_resumed 1 failed_click_layer)) =
     balloons (onClick_resumed 1 failed_click_layer) \<and>
   fst (pop quiet_host failed_click_layer) \<noteq> Pending \<and>
   balloons (onAnimationComplete 1 (onClick_resumed 1 (onClick quiet_host 1 failed_click_layer))) =
     balloons (onClick_resumed 1 (onClick quiet_host 1 failed_click_layer))"
proof -
  have a: "3 \<notin> id_b ` set two_balloons"
    by (simp add: two_balloons_def id_b_randomBalloon)
  have b: "distinct (map id_b two_balloons) \<and> randomBalloon 1 zero_draws \<in> set two_balloons"
    by (simp add: two_balloons_def id_b_randomBalloon)
  have c: "remove1 (randomBalloon 1 zero_draws) two_balloons = [randomBalloon 2 half_draws]"
    by (simp add: two_balloons_def)
  have s: "has_settled 1 failed_click_layer"
    by (simp add: has_settled_def failed_click_layer_def)
  have q: "fst (pop quiet_host failed_click_layer) \<noteq> Pending"
    by (simp add: pop_promise quiet_host_def)
  from C7_remove_idempotent [of 3 two_balloons "randomBalloon 1 zero_draws"] a
  have d: "remove_id 3 two_balloons = two_balloons" by blast
  from C7_remove_idempotent [of 1 two_balloons "randomBalloon 1 zero_draws"] b c
  have e: "remove_id 1 two_balloons = [randomBalloon 2 half_draws]"
    by (simp add: id_b_randomBalloon)
  from C7_remove_idempotent [of 1 two_balloons "randomBalloon 1 zero_draws"] e
  have f: "remove_id 1 (remove_id 1 two_balloons) = [randomBalloon 2 half_draws]"
    by simp
  note t = C7_remove_idempotent [of 1 two_balloons "randomBalloon 1 zero_draws" failed_click_layer quiet_host quiet_host]
  from t s have g: "balloons (onAnimationComplete 1 (onClick_resumed 1 failed_click_layer)) =
     balloons (onClick_resumed 1 failed_click_layer)" by blast
  from t q have k: "balloons (onAnimationComplete 1 (onClick_resumed 1 (onClick quiet_host 1 failed_click_layer))) =
     balloons (onClick_resumed 1 (onClick quiet_host 1 failed_click_layer))" by blast
  show ?thesis using d e f s q g k by simp
qed


text \<open>
  What the guard of the effect is there for: were the prop \<^verbatim>\<open>enabled\<close> of a mounted layer
  set to false, the interval would be cleared and the balloons kept.
\<close>

lemma set_enabled_False_keeps_balloons:
  "balloons (set_enabled False ds l) = balloons l \<and> idRef (set_enabled False ds l) = idRef l \<and>
   spawn (set_enabled False ds l) = None"
  by (simp add: set_enabled_def effect_def cleanup_def)

text \<open>
  Claim C2 at a failing input. The page is loaded and seven of the twelve balloons of the
  burst finish their ascent, so five are airborne. A click on the balloons button then
  leaves no balloon: the page renders the layer only under \<^verbatim>\<open>balloonsOn &&\<close>, so turning
  the balloons off unmounts the layer and its five balloons vanish at once. The layer's own
  guard \<^verbatim>\<open>if (!enabled) return;\<close> (in one variant with the comment
  \<^verbatim>\<open>pause spawn but keep existing\<close>) is never reached with \<^verbatim>\<open>enabled\<close> false.
\<close>

theorem C2_disable_unmounts_layer:
  "length (live (run (map AnimationComplete [1..<8]) (Portfolio_init zero_burst))) = 5 \<and>
   live (step (ToggleBalloons zero_burst)
     (run (map AnimationComplete [1..<8]) (Portfolio_init zero_burst))) = []"
proof -
  have "length (map id_b (live (run (map AnimationComplete [1..<8]) (Portfolio_init zero_burst)))) = length [8..<(13::nat)]"
    by (simp only: five_left)
  then have a: "length (live (run (map AnimationComplete [1..<8]) (Portfolio_init zero_burst))) = 5"
    by simp
  have "page_inv (run (map AnimationComplete [1..<8]) (Portfolio_init zero_burst))"
    by (rule page_inv_reachable)
  moreover have "live (run (map AnimationComplete [1..<8]) (Portfolio_init zero_burst)) \<noteq> []"
    using a by auto
  ultimately have "balloonsOn (run (map AnimationComplete [1..<8]) (Portfolio_init zero_burst))"
    by (auto simp: page_inv_def live_def split: option.splits)
  then have "live (step (ToggleBalloons zero_burst)
     (run (map AnimationComplete [1..<8]) (Portfolio_init zero_burst))) = []"
    by (simp add: live_def)
  with a show ?thesis by simp
qed

text \<open>
  Claim C6 at a failing input. The balloons of the burst at the load of the page have the
  ids 1 to 12. After the balloons are turned off and on again, the balloons of the new
  burst have the ids 1 to 12 again, and are other balloons (here the first of them differs
  from the first of the old burst): the counter lives in the layer, which the page unmounts
  when the balloons are turned off, so it restarts at 1. This is the defect of claim C2.
  Within every state of the page the ids of the live set are distinct (\<open>live_ids_distinct\<close>).
\<close>

theorem C6_ids_restart_after_reenable:
  "map id_b (live (Portfolio_init zero_burst)) = [1..<13] \<and>
   live (run [ToggleBalloons zero_burst] (Portfolio_init zero_burst)) = [] \<and>
   map id_b (live (run [ToggleBalloons zero_burst, ToggleBalloons half_burst] (Portfolio_init zero_burst))) = [1..<13] \<and>
   hd (live (Portfolio_init zero_burst)) \<noteq>
     hd (live (run [ToggleBalloons zero_burst, ToggleBalloons half_burst] (Portfolio_init zero_burst)))"
proof -
  have a: "live (run [ToggleBalloons zero_burst, ToggleBalloons half_burst] (Portfolio_init zero_burst)) = burst 1 half_burst"
    by (simp add: live_def Portfolio_init_def balloons_mount)
  have b: "live (run [ToggleBalloons zero_burst] (Portfolio_init zero_burst)) = []"
    by (simp add: live_def Portfolio_init_def)
  have c: "hd (burst 1 zero_burst) = randomBalloon 1 zero_draws"
    by (simp add: burst_def zero_burst_def upt_conv_Cons)
  have d: "hd (burst 1 half_burst) = randomBalloon 1 half_draws"
    by (simp add: burst_def half_burst_def upt_conv_Cons)
  have e: "randomBalloon 1 zero_draws \<noteq> randomBalloon 1 half_draws"
    by (simp add: randomBalloon_def zero_draws_def half_draws_def)
  show ?thesis
    using a b c d e by (simp add: live_init ids_burst)
qed

section \<open>The claims about the pop\<close>

lemma one_in_first_burst: "1 \<in> id_b ` set (balloons (mount True False zero_burst))"
proof -
  have "map id_b (balloons (mount True False zero_burst)) = [1..<13]"
    by (simp add: balloons_mount ids_burst)
  then have "set (map id_b (balloons (mount True False zero_burst))) = set [1..<13]" by simp
  then show ?thesis by simp
qed

lemma in_first_burst:
  assumes "1 \<le> i" "i < 13"
  shows "i \<in> id_b ` set (balloons (mount True False zero_burst))"
proof -
  have "map id_b (balloons (mount True False zero_burst)) = [1..<13]"
    by (simp add: balloons_mount ids_burst)
  then have "set (map id_b (balloons (mount True False zero_burst))) = set [1..<13]" by simp
  with assms show ?thesis by simp
qed

lemma fresh_mount_fields:
  "popCalls (mount True False zero_burst) = 0" "issued (mount True False zero_burst) = []"
  "awaiting (mount True False zero_burst) = []" "ctxRef (mount True False zero_burst) = False"
  by (simp_all add: mount_def effect_def BalloonsLayer_init_def)

lemma live_after_events:
  "live (run es (Portfolio_init ds)) =
     (case layer (run es (Portfolio_init ds)) of None \<Rightarrow> [] | Some l \<Rightarrow> balloons l)"
  by (simp add: live_def)

text \<open>
  Claim C3, as the specification states it, fails in \<^verbatim>\<open>src/App.tsx\<close>: the page is
  loaded, balloon 1 is live, and it is clicked while the audio context is suspended. When
  the handler has run as far as it can, \<^verbatim>\<open>pop\<close> has been invoked once, but the live set is
  what it was, with balloon 1 in it: the handler is suspended at \<^verbatim>\<open>await pop()\<close> and
  \<^verbatim>\<open>setBalloons\<close> comes after it. Balloon 1 leaves the live set only when the promise of
  \<^verbatim>\<open>resume()\<close> and with it the promise of \<^verbatim>\<open>pop()\<close> has settled and the handler goes on.
\<close>

theorem C3_click_waits_counterexample:
  "1 \<in> id_b ` set (live (Portfolio_init zero_burst)) \<and>
   live (step (Click suspended_host 1) (Portfolio_init zero_burst)) = live (Portfolio_init zero_burst) \<and>
   map_option popCalls (layer (step (Click suspended_host 1) (Portfolio_init zero_burst))) = Some 1 \<and>
   1 \<notin> id_b ` set (live (run [Click suspended_host 1, ResumeSettled quiet_host 1, PopSettled 1]
      (Portfolio_init zero_burst)))"
proof -
  have a: "1 \<in> id_b ` set (live (Portfolio_init zero_burst))"
    using one_in_first_burst by (simp add: live_def Portfolio_init_def)
  have b: "live (step (Click suspended_host 1) (Portfolio_init zero_burst)) = live (Portfolio_init zero_burst)"
    by (simp add: live_def Portfolio_init_def onClick_fields)
  have c: "map_option popCalls (layer (step (Click suspended_host 1) (Portfolio_init zero_burst))) = Some 1"
    by (simp add: Portfolio_init_def onClick_fields fresh_mount_fields)
  have "live (run [Click suspended_host 1, ResumeSettled quiet_host 1, PopSettled 1] (Portfolio_init zero_burst)) =
          remove_id 1 (live (Portfolio_init zero_burst))"
    by (simp add: live_def Portfolio_init_def balloons_click_resume_settle)
  then have d: "1 \<notin> id_b ` set (live (run [Click suspended_host 1, ResumeSettled quiet_host 1, PopSettled 1]
      (Portfolio_init zero_burst)))"
    by (auto simp: remove_id_def)
  show ?thesis using a b c d by blast
qed

text \<open>
  Claim C3, amended. For every click on a balloon, in every state of the layer and
  whatever the browser does to the audio calls, \<^verbatim>\<open>pop\<close> is invoked exactly once. In
  \<^verbatim>\<open>src/App.tsx\<close> the handler awaits that call: its run up to the \<^verbatim>\<open>await\<close> leaves the live
  set as it is, and so does the settling of \<^verbatim>\<open>resume()\<close>; the continuation of the handler,
  once the awaited promise has settled, removes the balloon with that id, and neither
  invokes \<^verbatim>\<open>pop\<close> again. The promise has settled after the click itself where \<^verbatim>\<open>pop()\<close>
  did not have to wait for \<^verbatim>\<open>resume()\<close>, and after the settling of \<^verbatim>\<open>resume()\<close> otherwise;
  until then the handler removes nothing. The removal takes place whatever the promise
  settled with, success or failure. In the two older variants of the page the call is not
  awaited, and the handler removes the balloon in the same run.
\<close>

theorem C3_pop_once_remove_after_await:
  "popCalls (onClick h i l) = popCalls l + 1 \<and>
   balloons (onClick h i l) = balloons l \<and>
   awaiting (onClick h i l) = awaiting l @ [(i, fst (pop h l))] \<and>
   (fst (pop h l) = Pending \<or> fst (pop h l) = Settled (Inr ())) \<and>
   popCalls (onResumeSettled h' i (onClick h i l)) = popCalls l + 1 \<and>
   balloons (onResumeSettled h' i (onClick h i l)) = balloons l \<and>
   popCalls (onClick_resumed i (onClick h i l)) = popCalls l + 1 \<and>
   popCalls (onClick_resumed i (onResumeSettled h' i (onClick h i l))) = popCalls l + 1 \<and>
   (fst (pop h l) \<noteq> Pending \<longrightarrow>
      balloons (onClick_resumed i (onClick h i l)) = remove_id i (balloons l)) \<and>
   (fst (pop h l) = Pending \<and> \<not> has_settled i l \<longrightarrow>
      balloons (onClick_resumed i (onClick h i l)) = balloons l) \<and>
   balloons (onClick_resumed i (onResumeSettled h' i (onClick h i l))) = remove_id i (balloons l) \<and>
   ((i, Settled r) \<in> set (awaiting l) \<longrightarrow>
      balloons (onClick_resumed i l) = remove_id i (balloons l)) \<and>
   popCalls (onClick_part_000 h i l) = popCalls l + 1 \<and>
   balloons (onClick_part_000 h i l) = remove_id i (balloons l)"
proof -
  have a: "fst (pop h l) = Pending \<or> fst (pop h l) = Settled (Inr ())"
    by (simp add: pop_promise)
  show ?thesis
    using a settle_any_outcome [of i r l] balloons_click_parked [of h l i]
    by (simp add: onClick_fields awaiting_onClick onResumeSettled_fields onClick_resumed_fields
        balloons_click_then_settle balloons_click_resume_settle onClick_part_000_fields)
qed

theorem C3_pop_once_remove_after_await_witness:
  "(1, Settled (Inl (Thrown Resume))) \<in> set (awaiting failed_click_layer) \<and>
   1 \<in> id_b ` set (balloons failed_click_layer) \<and>
   1 \<notin> id_b ` set (balloons (onClick_resumed 1 failed_click_layer)) \<and>
   popCalls (onClick deaf_host 1 failed_click_layer) = 1 \<and>
   fst (pop deaf_host (mount True False zero_burst)) \<noteq> Pending \<and>
   1 \<notin> id_b ` set (balloons (onClick_resumed 1 (onClick deaf_host 1 (mount True False zero_burst)))) \<and>
   fst (pop suspended_host (mount True False zero_burst)) = Pending \<and>
   \<not> has_settled 1 (mount True False zero_burst) \<and>
   1 \<in> id_b ` set (balloons (onClick_resumed 1 (onClick suspended_host 1 (mount True False zero_burst)))) \<and>
   1 \<notin> id_b ` set (balloons (onClick_resumed 1
      (onResumeSettled deaf_host 1 (onClick suspended_host 1 (mount True False zero_burst)))))"
proof -
  let ?m = "mount True False zero_burst"
  have a: "(1, Settled (Inl (Thrown Resume))) \<in> set (awaiting failed_click_layer)"
    by (simp add: failed_click_layer_def)
  have b: "1 \<in> id_b ` set (balloons failed_click_layer)"
    using one_in_first_burst by (simp add: failed_click_layer_def)
  have c: "popCalls failed_click_layer = 0"
    by (simp add: failed_click_layer_def fresh_mount_fields)
  have p1: "fst (pop deaf_host ?m) \<noteq> Pending"
    by (simp add: pop_promise deaf_host_def fresh_mount_fields)
  have p2: "fst (pop suspended_host ?m) = Pending"
    by (simp add: pop_promise suspended_host_def)
  have p3: "\<not> has_settled 1 ?m"
    by (simp add: has_settled_def fresh_mount_fields)
  note t = C3_pop_once_remove_after_await [of deaf_host 1 failed_click_layer deaf_host "Inl (Thrown Resume)"]
  note u = C3_pop_once_remove_after_await [of deaf_host 1 ?m deaf_host "Inl (Thrown Resume)"]
  note v = C3_pop_once_remove_after_await [of suspended_host 1 ?m deaf_host "Inl (Thrown Resume)"]
  from t a have "balloons (onClick_resumed 1 failed_click_layer) = remove_id 1 (balloons failed_click_layer)"
    by blast
  then have d: "1 \<notin> id_b ` set (balloons (onClick_resumed 1 failed_click_layer))"
    by (auto simp: remove_id_def)
  from t c have e: "popCalls (onClick deaf_host 1 failed_click_layer) = 1" by simp
  from u p1 have "balloons (onClick_resumed 1 (onClick deaf_host 1 ?m)) = remove_id 1 (balloons ?m)"
    by blast
  then have f: "1 \<notin> id_b ` set (balloons (onClick_resumed 1 (onClick deaf_host 1 ?m)))"
    by (auto simp: remove_id_def)
  from v p2 p3 have "balloons (onClick_resumed 1 (onClick suspended_host 1 ?m)) = balloons ?m"
    by blast
  with one_in_first_burst
  have g: "1 \<in> id_b ` set (balloons (onClick_resumed 1 (onClick suspended_host 1 ?m)))"
    by simp
  from v have "balloons (onClick_resumed 1 (onResumeSettled deaf_host 1 (onClick suspended_host 1 ?m))) =
      remove_id 1 (balloons ?m)" by blast
  then have k: "1 \<notin> id_b ` set (balloons (onClick_resumed 1
      (onResumeSettled deaf_host 1 (onClick suspended_host 1 ?m))))"
    by (auto simp: remove_id_def)
  show ?thesis using a b d e p1 f p2 p3 g k by blast
qed

text \<open>
  Claim C9, as the specification states it, fails in \<^verbatim>\<open>src/App.tsx\<close>. The page is loaded
  and balloon 2 is clicked while the audio context is suspended, so \<^verbatim>\<open>pop\<close> waits for
  \<^verbatim>\<open>resume()\<close> and the handler for \<^verbatim>\<open>pop\<close>. As long as the promise of \<^verbatim>\<open>resume()\<close> has not
  settled, the click does not remove balloon 2: the continuation of the handler cannot
  run, and a tick of the interval goes by with the balloon still there. The audio holds
  the removal back. Only when the browser rejects \<^verbatim>\<open>resume()\<close> (the failure is swallowed)
  does the handler go on and remove the balloon.
\<close>

theorem C9_pending_resume_holds_removal_counterexample:
  "2 \<in> id_b ` set (live (Portfolio_init zero_burst)) \<and>
   2 \<in> id_b ` set (live (run [Click suspended_host 2, PopSettled 2, SpawnTick zero_draws, PopSettled 2]
      (Portfolio_init zero_burst))) \<and>
   2 \<notin> id_b ` set (live (run [Click suspended_host 2, PopSettled 2, SpawnTick zero_draws, PopSettled 2,
      ResumeSettled deaf_host 2, PopSettled 2] (Portfolio_init zero_burst)))"
proof -
  let ?m = "mount True False zero_burst"
  let ?c = "onClick suspended_host 2 ?m"
  have a: "2 \<in> id_b ` set (live (Portfolio_init zero_burst))"
    using in_first_burst [of 2] by (simp add: live_def Portfolio_init_def)
  have p: "fst (pop suspended_host ?m) = Pending"
    by (simp add: pop_promise suspended_host_def)
  have ns0: "\<not> has_settled 2 ?m"
    by (simp add: has_settled_def fresh_mount_fields)
  have ns: "\<not> has_settled 2 ?c"
    using p ns0 by (simp add: has_settled_click)
  have c1: "onClick_resumed 2 ?c = ?c"
    using ns by (rule onClick_resumed_not_settled)
  have sp: "spawn ?c = Some 1600"
    by (simp add: onClick_fields spawn_mount)
  let ?t = "spawn_tick zero_draws ?c"
  have ns2: "\<not> has_settled 2 ?t"
    unfolding has_settled_spawn_tick by (rule ns)
  have c2: "onClick_resumed 2 ?t = ?t"
    using ns2 by (rule onClick_resumed_not_settled)
  have l4: "layer (run [Click suspended_host 2, PopSettled 2, SpawnTick zero_draws, PopSettled 2]
      (Portfolio_init zero_burst)) = Some ?t"
    by (simp add: Portfolio_init_def c1 sp c2)
  have bt: "balloons ?t = balloons ?m @ [randomBalloon 13 zero_draws]"
    by (simp add: spawn_tick_def onClick_fields balloons_mount length_burst)
       (simp add: mount_def effect_def BalloonsLayer_init_def)
  have b: "2 \<in> id_b ` set (live (run [Click suspended_host 2, PopSettled 2, SpawnTick zero_draws, PopSettled 2]
      (Portfolio_init zero_burst)))"
    using in_first_burst [of 2] by (simp add: live_def l4 bt del: run.simps)
  have pend: "(2, Pending) \<in> set (awaiting ?t)"
    using p by (simp add: awaiting_spawn_tick awaiting_onClick)
  have hs: "has_settled 2 (onResumeSettled deaf_host 2 ?t)"
    using pend by (intro has_settled_onResumeSettled) simp
  have l6: "layer (run [Click suspended_host 2, PopSettled 2, SpawnTick zero_draws, PopSettled 2,
      ResumeSettled deaf_host 2, PopSettled 2] (Portfolio_init zero_burst)) =
      Some (onClick_resumed 2 (onResumeSettled deaf_host 2 ?t))"
    by (simp add: Portfolio_init_def c1 sp c2)
  have "live (run [Click suspended_host 2, PopSettled 2, SpawnTick zero_draws, PopSettled 2,
      ResumeSettled deaf_host 2, PopSettled 2] (Portfolio_init zero_burst)) = remove_id 2 (balloons ?t)"
    using hs by (simp add: live_def l6 balloons_onClick_resumed onResumeSettled_fields del: run.simps)
  then have c: "2 \<notin> id_b ` set (live (run [Click suspended_host 2, PopSettled 2, SpawnTick zero_draws, PopSettled 2,
      ResumeSettled deaf_host 2, PopSettled 2] (Portfolio_init zero_burst)))"
    by (auto simp: remove_id_def)
  show ?thesis using a b c by blast
qed

text \<open>
  Claim C9, amended. Whatever the browser does to the audio calls, a failure inside
  \<^verbatim>\<open>pop\<close> (a call that throws, a rejected \<^verbatim>\<open>resume()\<close>) ends in the \<^verbatim>\<open>catch\<close> of
  \<^verbatim>\<open>pop\<close>: the promise of \<^verbatim>\<open>pop()\<close> is never rejected, the rest of \<^verbatim>\<open>pop\<close> after
  \<^verbatim>\<open>resume()\<close> completes normally, and so does \<^verbatim>\<open>pop\<close> in the older variants; \<^verbatim>\<open>pop\<close>
  leaves the live set alone. In \<^verbatim>\<open>src/App.tsx\<close> the removal of the clicked balloon waits
  for the promise of \<^verbatim>\<open>pop()\<close> and does not depend on what it settles with: it takes
  place at the continuation of the handler after the click where \<^verbatim>\<open>pop()\<close> did not have
  to wait for \<^verbatim>\<open>resume()\<close> (so also where a call threw), and after the settling of
  \<^verbatim>\<open>resume()\<close> otherwise, rejected or not; while \<^verbatim>\<open>resume()\<close> is pending the click
  removes nothing. In the older variants the removal follows in the same run.
\<close>

theorem C9_failures_swallowed_removal_after_settle:
  "fst (pop h l) \<noteq> Settled (Inl e) \<and>
   fst (pop_resumed h l) = Inr () \<and>
   fst (pop_part_000 h l) = Inr () \<and>
   balloons (snd (pop h l)) = balloons l \<and>
   balloons (snd (pop_resumed h l)) = balloons l \<and>
   (fst (run_cmds (throws h) (pop_cmds h l)) = Inl e \<longrightarrow>
      fst (pop h l) = Settled (Inr ()) \<and>
      balloons (onClick_resumed i (onClick h i l)) = remove_id i (balloons l)) \<and>
   (throws h' Resume \<longrightarrow>
      fst (pop_resumed h' l) = Inr () \<and> issued (snd (pop_resumed h' l)) = issued l) \<and>
   (fst (pop h l) \<noteq> Pending \<longrightarrow>
      balloons (onClick_resumed i (onClick h i l)) = remove_id i (balloons l)) \<and>
   (fst (pop h l) = Pending \<and> \<not> has_settled i l \<longrightarrow>
      balloons (onClick_resumed i (onClick h i l)) = balloons l) \<and>
   balloons (onClick_resumed i (onResumeSettled h' i (onClick h i l))) = remove_id i (balloons l) \<and>
   balloons (onClick_part_000 h i l) = remove_id i (balloons l)"
proof -
  have a: "fst (pop h l) \<noteq> Settled (Inl e)"
    by (simp add: pop_promise)
  have b: "fst (run_cmds (throws h) (pop_cmds h l)) = Inl e \<longrightarrow> fst (pop h l) = Settled (Inr ())"
    by (simp add: pop_def Let_def split: prod.splits sum.splits)
  then have c: "fst (run_cmds (throws h) (pop_cmds h l)) = Inl e \<longrightarrow>
      fst (pop h l) = Settled (Inr ()) \<and>
      balloons (onClick_resumed i (onClick h i l)) = remove_id i (balloons l)"
    using balloons_click_then_settle [of h l i] by auto
  show ?thesis
    using a c balloons_click_parked [of h l i]
    by (simp add: pop_resumed_result pop_part_000_result pop_fields pop_resumed_fields
        issued_pop_resumed_rejected balloons_click_then_settle balloons_click_resume_settle
        onClick_part_000_fields)
qed

theorem C9_failures_swallowed_removal_after_settle_witness:
  "fst (run_cmds (throws deaf_host) (pop_cmds deaf_host (mount True False zero_burst))) =
     Inl (Thrown NewAudioContext) \<and>
   fst (pop deaf_host (mount True False zero_burst)) = Settled (Inr ()) \<and>
   1 \<in> id_b ` set (balloons (mount True False zero_burst)) \<and>
   1 \<notin> id_b ` set (balloons (onClick_resumed 1 (onClick deaf_host 1 (mount True False zero_burst)))) \<and>
   throws deaf_host Resume \<and>
   issued (snd (pop_resumed deaf_host (mount True False zero_burst))) = [] \<and>
   fst (pop suspended_host (mount True False zero_burst)) = Pending \<and>
   \<not> has_settled 1 (mount True False zero_burst) \<and>
   1 \<in> id_b ` set (balloons (onClick_resumed 1 (onClick suspended_host 1 (mount True False zero_burst)))) \<and>
   1 \<notin> id_b ` set (balloons (onClick_resumed 1
      (onResumeSettled deaf_host 1 (onClick suspended_host 1 (mount True False zero_burst)))))"
proof -
  let ?m = "mount True False zero_burst"
  have a: "fst (run_cmds (throws deaf_host) (pop_cmds deaf_host ?m)) = Inl (Thrown NewAudioContext)"
    by (simp add: pop_cmds_def deaf_host_def fresh_mount_fields)
  have r: "throws deaf_host Resume"
    by (simp add: deaf_host_def)
  have p2: "fst (pop suspended_host ?m) = Pending"
    by (simp add: pop_promise suspended_host_def)
  have p3: "\<not> has_settled 1 ?m"
    by (simp add: has_settled_def fresh_mount_fields)
  note t = C9_failures_swallowed_removal_after_settle
      [of deaf_host ?m "Thrown NewAudioContext" 1 deaf_host]
  note v = C9_failures_swallowed_removal_after_settle
      [of suspended_host ?m "Thrown NewAudioContext" 1 deaf_host]
  from t a have c: "fst (pop deaf_host ?m) = Settled (Inr ())" by blast
  from t a have "balloons (onClick_resumed 1 (onClick deaf_host 1 ?m)) = remove_id 1 (balloons ?m)"
    by blast
  then have d: "1 \<notin> id_b ` set (balloons (onClick_resumed 1 (onClick deaf_host 1 ?m)))"
    by (auto simp: remove_id_def)
  from t r have "issued (snd (pop_resumed deaf_host ?m)) = issued ?m" by blast
  then have e: "issued (snd (pop_resumed deaf_host ?m)) = []"
    by (simp add: fresh_mount_fields)
  from v p2 p3 have "balloons (onClick_resumed 1 (onClick suspended_host 1 ?m)) = balloons ?m"
    by blast
  with one_in_first_burst
  have g: "1 \<in> id_b ` set (balloons (onClick_resumed 1 (onClick suspended_host 1 ?m)))"
    by simp
  from v have "balloons (onClick_resumed 1 (onResumeSettled deaf_host 1 (onClick suspended_host 1 ?m))) =
      remove_id 1 (balloons ?m)" by blast
  then have k: "1 \<notin> id_b ` set (balloons (onClick_resumed 1
      (onResumeSettled deaf_host 1 (onClick suspended_host 1 ?m))))"
    by (auto simp: remove_id_def)
  show ?thesis using a c one_in_first_burst d r e p2 p3 g k by blast
qed

lemma graph_cmds_muted:
  assumes "volRef l = 0"
  shows "graph_cmds h l =
     (pop_graph 0.06 0.06 (currentTime h) (sampleRate h))
       [1 := SetValueAtTime Gain_gain 0.0001 (currentTime h),
        12 := SetValueAtTime NoiseGain_gain 0 (currentTime h)]"
  using assms muted_graph [of "currentTime h" "sampleRate h"] by (simp add: graph_cmds_def)

lemma graph_cmds_audible:
  "graph_cmds h (l\<lparr> volRef := 0.06 \<rparr>) = pop_graph 0.06 0.06 (currentTime h) (sampleRate h)"
  by (simp add: graph_cmds_def)

text \<open>
  The volume that counts is the one at the moment the graph is built. A click while the
  sound is muted and the context suspended, then the sound turned on again before
  \<^verbatim>\<open>resume()\<close> settles: the graph is the audible one.
\<close>

lemma mute_toggled_before_resume_settles:
  "map_option issued (layer (run [ToggleMute, Click suspended_host 1, ToggleMute, ResumeSettled quiet_host 1]
      (Portfolio_init zero_burst))) =
   Some ([NewAudioContext, Resume] @ pop_graph 0.06 0.06 0 48000)"
proof -
  let ?m = "(mount True False zero_burst)\<lparr> volRef := 0 \<rparr>"
  let ?c = "onClick suspended_host 1 ?m"
  have i1: "issued ?c = [NewAudioContext, Resume]"
    by (simp add: onClick_eq pop_def pop_cmds_def suspended_host_def fresh_mount_fields)
  have p: "fst (pop suspended_host ?m) = Pending"
    by (simp add: pop_promise suspended_host_def)
  let ?d = "?c\<lparr> volRef := 0.06 \<rparr>"
  have pend: "(1, Pending) \<in> set (awaiting ?d)"
    using p by (simp add: awaiting_onClick)
  have g: "graph_cmds quiet_host ?d = pop_graph 0.06 0.06 0 48000"
    by (simp add: graph_cmds_def quiet_host_def)
  have "list_all (\<lambda>c. \<not> throws quiet_host c) (graph_cmds quiet_host ?d)"
    by (simp add: quiet_host_def list_all_iff)
  moreover have "\<not> throws quiet_host Resume"
    by (simp add: quiet_host_def)
  ultimately have "issued (snd (pop_resumed quiet_host ?d)) = issued ?d @ graph_cmds quiet_host ?d"
    by (intro issued_pop_resumed_no_throw)
  then have i2: "issued (onResumeSettled quiet_host 1 ?d) = [NewAudioContext, Resume] @ pop_graph 0.06 0.06 0 48000"
    using pend i1 g by (simp add: onResumeSettled_eq)
  have "layer (run [ToggleMute, Click suspended_host 1, ToggleMute, ResumeSettled quiet_host 1]
      (Portfolio_init zero_burst)) = Some (onResumeSettled quiet_host 1 ?d)"
    by (simp add: Portfolio_init_def)
  with i2 show ?thesis by (simp del: run.simps)
qed

text \<open>
  Claim C8. In a state of the page that has the sound muted, the volume ref of the mounted
  layer is 0, and a click invokes \<^verbatim>\<open>pop\<close> all the same. The graph that \<^verbatim>\<open>pop\<close> builds in
  such a state is that of the audible case, call for call, but for two values: the output
  gain starts at 0.0001 (the \<^verbatim>\<open>Math.max(0.0001, volRef.current)\<close>) and the gain of the
  noise at 0. It is built at the click where the context is running, and when \<^verbatim>\<open>resume()\<close>
  has settled where the context was suspended (at the click, only the context and the call
  of \<^verbatim>\<open>resume()\<close> are made then); where no call throws, all of its calls are made.
\<close>

theorem C8_muted_pop_same_graph:
  assumes "p = run es (Portfolio_init ds)" "muted p" "layer p = Some l"
  shows "volRef l = 0 \<and>
     popCalls (onClick h i l) = popCalls l + 1 \<and>
     graph_cmds h (l\<lparr> volRef := 0.06 \<rparr>) = pop_graph 0.06 0.06 (currentTime h) (sampleRate h) \<and>
     graph_cmds h l =
       (pop_graph 0.06 0.06 (currentTime h) (sampleRate h))
         [1 := SetValueAtTime Gain_gain 0.0001 (currentTime h),
          12 := SetValueAtTime NoiseGain_gain 0 (currentTime h)] \<and>
     length (graph_cmds h l) = length (graph_cmds h (l\<lparr> volRef := 0.06 \<rparr>)) \<and>
     SetValueAtTime Gain_gain 0.0001 (currentTime h) \<in> set (graph_cmds h l) \<and>
     (\<not> ctx_suspended h \<and> list_all (\<lambda>c. \<not> throws h c) (pop_cmds h l) \<longrightarrow>
        issued (snd (pop h l)) =
          issued l @ (if ctxRef l then [] else [NewAudioContext]) @ graph_cmds h l) \<and>
     (ctx_suspended h \<and> list_all (\<lambda>c. \<not> throws h c) (pop_cmds h l) \<longrightarrow>
        issued (snd (pop h l)) =
          issued l @ (if ctxRef l then [] else [NewAudioContext]) @ [Resume]) \<and>
     (\<not> throws h Resume \<and> list_all (\<lambda>c. \<not> throws h c) (graph_cmds h l) \<longrightarrow>
        issued (snd (pop_resumed h l)) = issued l @ graph_cmds h l)"
proof -
  have "page_inv p" using assms(1) by (simp add: page_inv_reachable)
  with assms have v: "volRef l = 0"
    by (simp add: page_inv_def layer_inv_def)
  note a = graph_cmds_audible [of h l]
  note b = graph_cmds_muted [OF v, of h]
  have c: "length (graph_cmds h l) = length (graph_cmds h (l\<lparr> volRef := 0.06 \<rparr>))"
    by (simp only: a b length_list_update)
  have d: "SetValueAtTime Gain_gain 0.0001 (currentTime h) \<in> set (graph_cmds h l)"
    using v by (simp add: graph_cmds_def pop_graph_def)
  have e: "\<not> ctx_suspended h \<and> list_all (\<lambda>c. \<not> throws h c) (pop_cmds h l) \<longrightarrow>
        issued (snd (pop h l)) =
          issued l @ (if ctxRef l then [] else [NewAudioContext]) @ graph_cmds h l"
    using issued_pop_no_throw [of h l] by (simp add: pop_cmds_def)
  have f: "ctx_suspended h \<and> list_all (\<lambda>c. \<not> throws h c) (pop_cmds h l) \<longrightarrow>
        issued (snd (pop h l)) =
          issued l @ (if ctxRef l then [] else [NewAudioContext]) @ [Resume]"
    using issued_pop_no_throw [of h l] by (simp add: pop_cmds_def)
  have g: "\<not> throws h Resume \<and> list_all (\<lambda>c. \<not> throws h c) (graph_cmds h l) \<longrightarrow>
        issued (snd (pop_resumed h l)) = issued l @ graph_cmds h l"
    by (simp add: issued_pop_resumed_no_throw)
  show ?thesis
    using v a b c d e f g by (simp add: onClick_fields)
qed

theorem C8_muted_pop_same_graph_witness:
  "muted (run [ToggleMute] (Portfolio_init zero_burst)) \<and>
   layer (run [ToggleMute] (Portfolio_init zero_burst)) = Some muted_layer \<and>
   volRef muted_layer = 0 \<and>
   popCalls (onClick quiet_host 1 muted_layer) = 1 \<and>
   \<not> ctx_suspended quiet_host \<and>
   list_all (\<lambda>c. \<not> throws quiet_host c) (pop_cmds quiet_host muted_layer) \<and>
   issued (snd (pop quiet_host muted_layer)) = NewAudioContext # graph_cmds quiet_host muted_layer \<and>
   SetValueAtTime Gain_gain 0.0001 0 \<in> set (issued (snd (pop quiet_host muted_layer))) \<and>
   ctx_suspended suspended_host \<and>
   list_all (\<lambda>c. \<not> throws suspended_host c) (pop_cmds suspended_host muted_layer) \<and>
   issued (snd (pop suspended_host muted_layer)) = [NewAudioContext, Resume] \<and>
   \<not> throws quiet_host Resume \<and>
   list_all (\<lambda>c. \<not> throws quiet_host c) (graph_cmds quiet_host muted_layer) \<and>
   issued (snd (pop_resumed quiet_host muted_layer)) = graph_cmds quiet_host muted_layer \<and>
   SetValueAtTime Gain_gain 0.0001 0 \<in> set (issued (snd (pop_resumed quiet_host muted_layer)))"
proof -
  have a: "muted (run [ToggleMute] (Portfolio_init zero_burst))"
    by (simp add: Portfolio_init_def)
  have b: "layer (run [ToggleMute] (Portfolio_init zero_burst)) = Some muted_layer"
    by (simp add: Portfolio_init_def muted_layer_def)
  have c: "list_all (\<lambda>c. \<not> throws quiet_host c) (pop_cmds quiet_host muted_layer)"
      "list_all (\<lambda>c. \<not> throws quiet_host c) (graph_cmds quiet_host muted_layer)"
      "list_all (\<lambda>c. \<not> throws suspended_host c) (pop_cmds suspended_host muted_layer)"
    by (simp_all add: quiet_host_def suspended_host_def list_all_iff)
  have d: "popCalls muted_layer = 0" "issued muted_layer = []" "ctxRef muted_layer = False"
    by (simp_all add: muted_layer_def fresh_mount_fields)
  have e: "currentTime quiet_host = 0" "\<not> ctx_suspended quiet_host" "\<not> throws quiet_host Resume"
      "ctx_suspended suspended_host"
    by (simp_all add: quiet_host_def suspended_host_def)
  note t = C8_muted_pop_same_graph [OF refl a b, of quiet_host 1]
  note u = C8_muted_pop_same_graph [OF refl a b, of suspended_host 1]
  from t have t1: "volRef muted_layer = 0" by blast
  from t have t2: "popCalls (onClick quiet_host 1 muted_layer) = popCalls muted_layer + 1" by blast
  from t have t3: "SetValueAtTime Gain_gain 0.0001 (currentTime quiet_host)
      \<in> set (graph_cmds quiet_host muted_layer)" by blast
  from t c(1) e(2) have t4: "issued (snd (pop quiet_host muted_layer)) =
      issued muted_layer @ (if ctxRef muted_layer then [] else [NewAudioContext]) @
        graph_cmds quiet_host muted_layer" by blast
  from t c(2) e(3) have t5: "issued (snd (pop_resumed quiet_host muted_layer)) =
      issued muted_layer @ graph_cmds quiet_host muted_layer" by blast
  from u c(3) e(4) have u1: "issued (snd (pop suspended_host muted_layer)) =
      issued muted_layer @ (if ctxRef muted_layer then [] else [NewAudioContext]) @ [Resume]" by blast
  have t': "popCalls (onClick quiet_host 1 muted_layer) = 1"
      "issued (snd (pop quiet_host muted_layer)) = NewAudioContext # graph_cmds quiet_host muted_layer"
      "issued (snd (pop_resumed quiet_host muted_layer)) = graph_cmds quiet_host muted_layer"
      "SetValueAtTime Gain_gain 0.0001 0 \<in> set (graph_cmds quiet_host muted_layer)"
    using t2 t3 t4 t5 d e(1) by simp_all
  have u': "issued (snd (pop suspended_host muted_layer)) = [NewAudioContext, Resume]"
    using u1 d by simp
  show ?thesis
    using a b c e t1 t' u' by simp
qed

end
